theory Spec2Isabelle
  imports Complex_Main "HOL-Library.AList"
begin

section \<open>Values shared by the whole module\<close>

text \<open>
  The module \<^verbatim>\<open>pydkg/ecdkg.py\<close> drives a distributed key generation over secp256k1.
  Python integers are unbounded, so scalars and addresses are \<^typ>\<open>int\<close>; a curve point is
  the 2-tuple of integers that \<^verbatim>\<open>py_ecc\<close> works on; a signature is the \<^verbatim>\<open>rsv\<close> triplet;
  \<^verbatim>\<open>bytes\<close> are lists of 8-bit characters.
\<close>

type_synonym point = "int \<times> int"
type_synonym signature = "int \<times> int \<times> int"
type_synonym bytes = string

text \<open>The exceptions that the modelled code can raise.\<close>

datatype error =
    ValueError
  | TypeError
  | IndexError
  | OverflowError
  | AttributeError
  | ProtocolError
  | MultipleResultsFound

text \<open>
  A method that mutates the session either returns or raises; in both cases the objects
  it has already mutated keep their new attribute values, so both outcomes carry a state.
\<close>

datatype 'a outcome = Returned 'a | Raised error 'a

fun state_of :: "'a outcome \<Rightarrow> 'a" where
  "state_of (Returned s) = s"
| "state_of (Raised e s) = s"

fun has_raised :: "'a outcome \<Rightarrow> error option" where
  "has_raised (Returned s) = None"
| "has_raised (Raised e s) = Some e"

text \<open>\<^verbatim>\<open>secp256k1.N\<close>, the order of the group, and the field prime \<^verbatim>\<open>secp256k1.P\<close>.\<close>

definition secp256k1_N :: int where
  "secp256k1_N = 115792089237316195423570985008687907852837564279074904382605163141518161494337"

definition secp256k1_P :: int where
  "secp256k1_P = 2 ^ 256 - 2 ^ 32 - 977"

text \<open>The second generator, the module constant \<^verbatim>\<open>G2\<close>.\<close>

definition G2 :: point where
  "G2 = (0xb25b5ea8b8b230e5574fec0182e809e3455701323968c602ab56b458d0ba96bf,
         0x13edfe75e1c88e030eda220ffc74802144aec67c4e51cb49699d4401c122e19c)"

text \<open>
  Modelled from the spec: \<^verbatim>\<open>util.validate_curve_point\<close> is not part of the module; the
  specification gives its test: a point is valid when it is the identity or satisfies
  \<open>y\<^sup>2 \<equiv> x\<^sup>3 + 7 (mod p)\<close>. The identity of \<^verbatim>\<open>py_ecc\<close> is \<open>(0, 0)\<close>.
\<close>

definition on_curve :: "point \<Rightarrow> bool" where
  "on_curve pt = (pt = (0, 0) \<or>
     (snd pt * snd pt) mod secp256k1_P = (fst pt * fst pt * fst pt + 7) mod secp256k1_P)"

text \<open>
  The library \<^verbatim>\<open>py_ecc.secp256k1\<close> and the helper module \<^verbatim>\<open>util\<close> are not part of the
  module either. Their functions are parameters of the model, collected in one record.
  A helper that raises returns \<open>Inl\<close> of the exception.
\<close>

record library =
  secp256k1_add :: "point \<Rightarrow> point \<Rightarrow> point"
  secp256k1_multiply :: "point \<Rightarrow> int \<Rightarrow> point"
  secp256k1_G :: point
  address_to_bytes :: "int \<Rightarrow> error + bytes"
  private_value_to_bytes :: "int \<Rightarrow> error + bytes"
  address_from_message_and_signature :: "bytes \<Rightarrow> signature \<Rightarrow> error + int"

section \<open>Python built-ins used by the module\<close>

text \<open>
  \<^verbatim>\<open>int(s, 16)\<close> on a string whose characters are the code points 0 to 255: optional
  surrounding whitespace, an optional sign, an optional \<^verbatim>\<open>0x\<close> prefix (one underscore
  may follow it), then hexadecimal digits with single underscores between digits.
  Anything else raises \<^verbatim>\<open>ValueError\<close>.

  The whitespace that \<^verbatim>\<open>int\<close> strips is not that of \<^verbatim>\<open>str.isspace\<close>: below code point
  127 it is tab, line feed, vertical tab, form feed, carriage return and space only (the
  separators 28 to 31 are not stripped), and above it the Unicode spaces, which in this
  range are U+0085 and U+00A0. The only decimal digits in the range are \<^verbatim>\<open>0\<close> to \<^verbatim>\<open>9\<close>.
\<close>

definition py_isspace :: "char \<Rightarrow> bool" where
  "py_isspace c = (let n = (of_char c :: nat) in
     (9 \<le> n \<and> n \<le> 13) \<or> n = 32 \<or> n = 133 \<or> n = 160)"

definition hex_digit :: "char \<Rightarrow> int option" where
  "hex_digit c = (let n = (of_char c :: nat) in
     if 48 \<le> n \<and> n \<le> 57 then Some (int n - 48)
     else if 97 \<le> n \<and> n \<le> 102 then Some (int n - 87)
     else if 65 \<le> n \<and> n \<le> 70 then Some (int n - 55)
     else None)"

fun int16_digits :: "bool \<Rightarrow> int \<Rightarrow> string \<Rightarrow> int option" where
  "int16_digits prev_digit acc [] = (if prev_digit then Some acc else None)"
| "int16_digits prev_digit acc (c # cs) =
     (case hex_digit c of
        Some d \<Rightarrow> int16_digits True (16 * acc + d) cs
      | None \<Rightarrow>
          if c = CHR ''_'' then (if prev_digit then int16_digits False acc cs else None)
          else if prev_digit \<and> list_all py_isspace (c # cs) then Some acc
          else None)"

definition strip_sign :: "string \<Rightarrow> bool \<times> string" where
  "strip_sign s = (case s of
       [] \<Rightarrow> (False, [])
     | c # r \<Rightarrow> if c = CHR ''+'' then (False, r)
               else if c = CHR ''-'' then (True, r)
               else (False, s))"

definition strip_0x :: "string \<Rightarrow> string" where
  "strip_0x s = (case s of
       a # b # r \<Rightarrow>
         if a = CHR ''0'' \<and> (b = CHR ''x'' \<or> b = CHR ''X'')
         then (case r of u # r' \<Rightarrow> if u = CHR ''_'' then r' else r | [] \<Rightarrow> r)
         else s
     | _ \<Rightarrow> s)"

definition py_int16 :: "string \<Rightarrow> error + int" where
  "py_int16 s = (case strip_sign (dropWhile py_isspace s) of
       (neg, s') \<Rightarrow>
         (case int16_digits False 0 (strip_0x s') of
            None \<Rightarrow> Inl ValueError
          | Some v \<Rightarrow> Inr (if neg then - v else v)))"

text \<open>The slice \<^verbatim>\<open>s[i:i+64]\<close> for a non-negative \<open>i\<close>.\<close>

definition slice64 :: "string \<Rightarrow> nat \<Rightarrow> string" where
  "slice64 s i = take 64 (drop i s)"

text \<open>
  \<^verbatim>\<open>tuple(int(s[i:i+64], 16) for i in (0, 64))\<close>: the two coordinates are read in this
  order, and the first \<^verbatim>\<open>ValueError\<close> ends the evaluation.
\<close>

definition parse_point :: "string \<Rightarrow> error + point" where
  "parse_point s = (case py_int16 (slice64 s 0) of
       Inl e \<Rightarrow> Inl e
     | Inr x \<Rightarrow> (case py_int16 (slice64 s 64) of
                  Inl e \<Rightarrow> Inl e
                | Inr y \<Rightarrow> Inr (x, y)))"

text \<open>A generator expression over a list, stopping at the first exception.\<close>

fun map_raise :: "('a \<Rightarrow> error + 'b) \<Rightarrow> 'a list \<Rightarrow> error + 'b list" where
  "map_raise f [] = Inr []"
| "map_raise f (x # xs) =
     (case f x of
        Inl e \<Rightarrow> Inl e
      | Inr y \<Rightarrow> (case map_raise f xs of Inl e \<Rightarrow> Inl e | Inr ys \<Rightarrow> Inr (y # ys)))"

section \<open>The data model\<close>

datatype ECDKGPhase =
    uninitialized
  | key_distribution
  | key_verification
  | key_check
  | key_generation
  | key_publication
  | complete

text \<open>The class is an \<^verbatim>\<open>IntEnum\<close>: phases compare by their integer values.\<close>

fun phase_value :: "ECDKGPhase \<Rightarrow> nat" where
  "phase_value uninitialized = 0"
| "phase_value key_distribution = 1"
| "phase_value key_verification = 2"
| "phase_value key_check = 3"
| "phase_value key_generation = 4"
| "phase_value key_publication = 5"
| "phase_value complete = 6"

record ECDKGComplaint =
  c_participant_id :: nat
  c_complainer_address :: int

record ECDKGParticipant =
  p_id :: nat
  p_ecdkg_id :: nat
  p_eth_address :: int
  p_encryption_key_part :: "point option"
  p_decryption_key_part :: "int option"
  p_verification_points :: "point list option"
  p_secret_share1 :: "int option"
  p_secret_share2 :: "int option"
  p_shares_signature :: "signature option"

record ECDKG =
  row_id :: nat
  decryption_condition :: string
  phase :: ECDKGPhase
  threshold :: "int option"
  encryption_key :: "point option"
  decryption_key :: "int option"
  participants :: "ECDKGParticipant list"
  secret_poly1 :: "int list option"
  secret_poly2 :: "int list option"
  verification_points :: "point list option"
  encryption_key_part :: "point option"

text \<open>
  What a handler works on: the session object \<^verbatim>\<open>self\<close> with its \<^verbatim>\<open>participants\<close>
  relationship, the table of complaints (shared by all sessions) and the next primary key
  of the participant table.
\<close>

record state =
  self :: ECDKG
  complaint_table :: "ECDKGComplaint list"
  participant_seq :: nat

text \<open>
  What the node and the transport supply to one run: the module globals
  \<^verbatim>\<open>own_address\<close> and \<^verbatim>\<open>networking.channels\<close>, the successive results of
  \<^verbatim>\<open>util.random_private_value()\<close>, and the reply of
  \<^verbatim>\<open>broadcast_jsonrpc_call_on_all_channels\<close> to each of the five requests, a dictionary
  keyed by peer address. The model describes the runs in which every \<^verbatim>\<open>await\<close>
  completes and every \<^verbatim>\<open>db.Session.commit()\<close> succeeds.
\<close>

record world =
  own_address :: int
  channels :: "int list"
  random_private_value :: "nat \<Rightarrow> int"
  signed_secret_shares :: "int \<rightharpoonup> ((int \<times> int) \<times> signature)"
  verification_points_reply :: "int \<rightharpoonup> string list"
  complaints_reply :: "int \<rightharpoonup> string list"
  encryption_key_parts :: "int \<rightharpoonup> string"
  dec_key_parts :: "int \<rightharpoonup> string"

section \<open>Module-level functions\<close>

text \<open>
  \<^verbatim>\<open>random_polynomial(order)\<close> calls \<^verbatim>\<open>util.random_private_value()\<close> once per
  coefficient; \<open>first\<close> counts the calls made before. \<^verbatim>\<open>range\<close> of a negative
  number is empty.
\<close>

definition random_polynomial :: "world \<Rightarrow> nat \<Rightarrow> int \<Rightarrow> int list" where
  "random_polynomial w first order =
     map (random_private_value w) [first ..< first + nat order]"

text \<open>
  \<^verbatim>\<open>THRESHOLD_FACTOR = .5\<close>. The product with an integer below \<open>2\<^sup>5\<^sup>3\<close> is exact in
  double precision, so the rational value is the value that \<^verbatim>\<open>math.ceil\<close> receives.
\<close>

definition THRESHOLD_FACTOR :: real where
  "THRESHOLD_FACTOR = 1 / 2"

text \<open>\<^verbatim>\<open>math.ceil(THRESHOLD_FACTOR * (n + 1))\<close> for the number \<open>n\<close> of participants.\<close>

definition ceil_threshold :: "nat \<Rightarrow> int" where
  "ceil_threshold n = \<lceil>THRESHOLD_FACTOR * real (n + 1)\<rceil>"

text \<open>\<^verbatim>\<open>Query.scalar()\<close>: the only row, \<^verbatim>\<open>None\<close> without rows, an exception otherwise.\<close>

definition scalar :: "'a list \<Rightarrow> error + 'a option" where
  "scalar rows = (case rows of
       [] \<Rightarrow> Inr None
     | [r] \<Rightarrow> Inr (Some r)
     | _ \<Rightarrow> Inl MultipleResultsFound)"

section \<open>Look-up-or-create\<close>

text \<open>
  The rows of the participant table with \<^verbatim>\<open>ecdkg_id == self.id\<close> are the list
  \<^verbatim>\<open>self.participants\<close>; a new row takes the next primary key.
\<close>

definition get_or_create_participant_by_address :: "state \<Rightarrow> int \<Rightarrow> state outcome" where
  "get_or_create_participant_by_address st address =
     (case scalar (filter (\<lambda>p. p_eth_address p = address) (participants (self st))) of
        Inl e \<Rightarrow> Raised e st
      | Inr (Some participant) \<Rightarrow> Returned st
      | Inr None \<Rightarrow>
          Returned (st\<lparr>
            self := (self st)\<lparr>participants := participants (self st) @
              [\<lparr>p_id = participant_seq st, p_ecdkg_id = row_id (self st),
                p_eth_address = address, p_encryption_key_part = None,
                p_decryption_key_part = None, p_verification_points = None,
                p_secret_share1 = None, p_secret_share2 = None,
                p_shares_signature = None\<rparr>]\<rparr>,
            participant_seq := Suc (participant_seq st)\<rparr>))"

definition get_or_create_complaint_by_complainer_address ::
  "ECDKGComplaint list \<Rightarrow> ECDKGParticipant \<Rightarrow> int \<Rightarrow> error + ECDKGComplaint list" where
  "get_or_create_complaint_by_complainer_address table participant address =
     (case scalar (filter (\<lambda>c. c_participant_id c = p_id participant \<and>
                               c_complainer_address c = address) table) of
        Inl e \<Rightarrow> Inl e
      | Inr (Some complaint) \<Rightarrow> Inr table
      | Inr None \<Rightarrow>
          Inr (table @ [\<lparr>c_participant_id = p_id participant,
                          c_complainer_address = address\<rparr>]))"

definition get_complaints_by :: "state \<Rightarrow> int \<Rightarrow> ECDKGComplaint list" where
  "get_complaints_by st address =
     filter (\<lambda>c. c_complainer_address c = address) (complaint_table st)"

section \<open>The phase handlers\<close>

text \<open>
  A loop \<^verbatim>\<open>for participant in self.participants\<close> whose body mutates the participant or
  raises: the participants before the raising one keep their new values.
\<close>

fun for_participants ::
  "(ECDKGParticipant \<Rightarrow> error + ECDKGParticipant) \<Rightarrow> ECDKGParticipant list \<Rightarrow>
   error option \<times> ECDKGParticipant list" where
  "for_participants body [] = (None, [])"
| "for_participants body (p # ps) =
     (case body p of
        Inl e \<Rightarrow> (Some e, p # ps)
      | Inr p' \<Rightarrow> (case for_participants body ps of (r, ps') \<Rightarrow> (r, p' # ps')))"

subsection \<open>Uninitialized\<close>

fun uninitialized_loop :: "state \<Rightarrow> int list \<Rightarrow> state outcome" where
  "uninitialized_loop st [] = Returned st"
| "uninitialized_loop st (addr # addrs) =
     (case get_or_create_participant_by_address st addr of
        Raised e st' \<Rightarrow> Raised e st'
      | Returned st' \<Rightarrow> uninitialized_loop st' addrs)"

definition handle_uninitialized_phase :: "library \<Rightarrow> world \<Rightarrow> state \<Rightarrow> state outcome" where
  "handle_uninitialized_phase L w st =
     (case uninitialized_loop st (channels w) of
        Raised e st1 \<Rightarrow> Raised e st1
      | Returned st1 \<Rightarrow>
          (let t = ceil_threshold (length (participants (self st1)));
               spoly1 = random_polynomial w 0 t;
               spoly2 = random_polynomial w (length spoly1) t;
               s2 = (self st1)\<lparr>threshold := Some t, secret_poly1 := Some spoly1,
                                secret_poly2 := Some spoly2\<rparr>
           in case spoly1 of
                [] \<Rightarrow> Raised IndexError (st1\<lparr>self := s2\<rparr>)
              | a0 # _ \<Rightarrow>
                  Returned (st1\<lparr>self := s2\<lparr>
                    encryption_key_part :=
                      Some (secp256k1_multiply L (secp256k1_G L) a0),
                    verification_points :=
                      Some (map (\<lambda>(a, b). secp256k1_add L
                                   (secp256k1_multiply L (secp256k1_G L) a)
                                   (secp256k1_multiply L G2 b))
                              (zip spoly1 spoly2)),
                    phase := key_distribution\<rparr>\<rparr>)))"

subsection \<open>KeyDistribution\<close>

definition secret_shares_msg_bytes ::
  "library \<Rightarrow> string \<Rightarrow> int \<Rightarrow> int \<Rightarrow> int \<Rightarrow> error + bytes" where
  "secret_shares_msg_bytes L cond addr share1 share2 =
     (case address_to_bytes L addr of
        Inl e \<Rightarrow> Inl e
      | Inr a \<Rightarrow>
          (case private_value_to_bytes L share1 of
             Inl e \<Rightarrow> Inl e
           | Inr b1 \<Rightarrow>
               (case private_value_to_bytes L share2 of
                  Inl e \<Rightarrow> Inl e
                | Inr b2 \<Rightarrow> Inr (cond @ a @ ''SECRETSHARES'' @ b1 @ b2))))"

text \<open>The \<^verbatim>\<open>try\<close> block of the first loop: the message, then the recovered address.\<close>

definition recover_share_signer ::
  "library \<Rightarrow> world \<Rightarrow> string \<Rightarrow> int \<Rightarrow> int \<Rightarrow> signature \<Rightarrow> error + int" where
  "recover_share_signer L w cond share1 share2 sig =
     (case secret_shares_msg_bytes L cond (own_address w) share1 share2 of
        Inl e \<Rightarrow> Inl e
      | Inr msg_bytes \<Rightarrow> address_from_message_and_signature L msg_bytes sig)"

definition store_signed_shares ::
  "library \<Rightarrow> world \<Rightarrow> string \<Rightarrow> ECDKGParticipant \<Rightarrow> error + ECDKGParticipant" where
  "store_signed_shares L w cond participant =
     (case signed_secret_shares w (p_eth_address participant) of
        None \<Rightarrow> Inr participant
      | Some ((share1, share2), sig) \<Rightarrow>
          (case recover_share_signer L w cond share1 share2 sig of
             Inl e \<Rightarrow> if e = ValueError then Inr participant else Inl e
           | Inr recovered_address \<Rightarrow>
               if p_eth_address participant \<noteq> recovered_address then Inr participant
               else Inr (participant\<lparr>p_secret_share1 := Some share1,
                                      p_secret_share2 := Some share2,
                                      p_shares_signature := Some sig\<rparr>)))"

definition store_verification_points ::
  "world \<Rightarrow> ECDKGParticipant \<Rightarrow> error + ECDKGParticipant" where
  "store_verification_points w participant =
     (case verification_points_reply w (p_eth_address participant) of
        Some ptstrs \<Rightarrow>
          (case map_raise parse_point ptstrs of
             Inl e \<Rightarrow> Inl e
           | Inr pts \<Rightarrow> Inr (participant\<lparr>p_verification_points := Some pts\<rparr>))
      | None \<Rightarrow> Inr participant)"

definition handle_key_distribution_phase :: "library \<Rightarrow> world \<Rightarrow> state \<Rightarrow> state outcome" where
  "handle_key_distribution_phase L w st =
     (case for_participants (store_signed_shares L w (decryption_condition (self st)))
             (participants (self st)) of
        (Some e, ps1) \<Rightarrow> Raised e (st\<lparr>self := (self st)\<lparr>participants := ps1\<rparr>\<rparr>)
      | (None, ps1) \<Rightarrow>
          (case for_participants (store_verification_points w) ps1 of
             (Some e, ps2) \<Rightarrow> Raised e (st\<lparr>self := (self st)\<lparr>participants := ps2\<rparr>\<rparr>)
           | (None, ps2) \<Rightarrow>
               Returned (st\<lparr>self := (self st)\<lparr>participants := ps2,
                                              phase := key_verification\<rparr>\<rparr>)))"

subsection \<open>KeyVerification\<close>

text \<open>
  \<^verbatim>\<open>functools.reduce(secp256k1.add, items)\<close> without an initial value raises
  \<^verbatim>\<open>TypeError\<close> on an empty sequence.
\<close>

definition reduce_add :: "library \<Rightarrow> point list \<Rightarrow> error + point" where
  "reduce_add L items = (case items of
       [] \<Rightarrow> Inl TypeError
     | x # xs \<Rightarrow> Inr (foldl (secp256k1_add L) x xs))"

text \<open>
  The body of the loop up to the test \<^verbatim>\<open>vlhs == vrhs\<close>: \<open>Inr True\<close> when the
  \<^verbatim>\<open>continue\<close> is taken. Iterating over \<^verbatim>\<open>participant.verification_points\<close> when the
  attribute is \<^verbatim>\<open>None\<close> raises \<^verbatim>\<open>TypeError\<close>.
\<close>

definition shares_match :: "library \<Rightarrow> world \<Rightarrow> ECDKGParticipant \<Rightarrow> error + bool" where
  "shares_match L w participant =
     (case (p_secret_share1 participant, p_secret_share2 participant) of
        (Some share1, Some share2) \<Rightarrow>
          (let vlhs = secp256k1_add L (secp256k1_multiply L (secp256k1_G L) share1)
                                      (secp256k1_multiply L G2 share2)
           in case p_verification_points participant of
                None \<Rightarrow> Inl TypeError
              | Some vpts \<Rightarrow>
                  (case reduce_add L
                          (map (\<lambda>(k, ps). secp256k1_multiply L ps
                                  ((own_address w) ^ k mod secp256k1_N))
                             (enumerate 0 vpts)) of
                     Inl e \<Rightarrow> Inl e
                   | Inr vrhs \<Rightarrow> Inr (vlhs = vrhs)))
      | _ \<Rightarrow> Inr False)"

fun key_verification_loop ::
  "library \<Rightarrow> world \<Rightarrow> ECDKGParticipant list \<Rightarrow> ECDKGComplaint list \<Rightarrow>
   error option \<times> ECDKGComplaint list" where
  "key_verification_loop L w [] table = (None, table)"
| "key_verification_loop L w (p # ps) table =
     (case shares_match L w p of
        Inl e \<Rightarrow> (Some e, table)
      | Inr True \<Rightarrow> key_verification_loop L w ps table
      | Inr False \<Rightarrow>
          (case get_or_create_complaint_by_complainer_address table p (own_address w) of
             Inl e \<Rightarrow> (Some e, table)
           | Inr table' \<Rightarrow> key_verification_loop L w ps table'))"

definition handle_key_verification_phase :: "library \<Rightarrow> world \<Rightarrow> state \<Rightarrow> state outcome" where
  "handle_key_verification_phase L w st =
     (case key_verification_loop L w (participants (self st)) (complaint_table st) of
        (Some e, table) \<Rightarrow> Raised e (st\<lparr>complaint_table := table\<rparr>)
      | (None, table) \<Rightarrow>
          Returned (st\<lparr>self := (self st)\<lparr>phase := key_check\<rparr>,
                       complaint_table := table\<rparr>))"

subsection \<open>KeyCheck\<close>

text \<open>The loop over the participants only executes \<^verbatim>\<open>pass\<close>.\<close>

definition handle_key_check_phase :: "library \<Rightarrow> world \<Rightarrow> state \<Rightarrow> state outcome" where
  "handle_key_check_phase L w st =
     Returned (st\<lparr>self := (self st)\<lparr>phase := key_generation\<rparr>\<rparr>)"

subsection \<open>KeyGeneration\<close>

definition store_encryption_key_part ::
  "world \<Rightarrow> ECDKGParticipant \<Rightarrow> error + ECDKGParticipant" where
  "store_encryption_key_part w participant =
     (case encryption_key_parts w (p_eth_address participant) of
        Some s \<Rightarrow>
          (case parse_point s of
             Inl e \<Rightarrow> Inl e
           | Inr ekp \<Rightarrow> Inr (participant\<lparr>p_encryption_key_part := Some ekp\<rparr>))
      | None \<Rightarrow> Inl ProtocolError)"

text \<open>
  \<^verbatim>\<open>functools.reduce(secp256k1.add, items, initial)\<close> over attribute values;
  \<^verbatim>\<open>secp256k1.add\<close> indexes both arguments, so \<^verbatim>\<open>None\<close> raises \<^verbatim>\<open>TypeError\<close>.
\<close>

fun reduce_add_from :: "library \<Rightarrow> point option \<Rightarrow> point option list \<Rightarrow> error + point option" where
  "reduce_add_from L acc [] = Inr acc"
| "reduce_add_from L acc (x # xs) =
     (case (acc, x) of
        (Some a, Some b) \<Rightarrow> reduce_add_from L (Some (secp256k1_add L a b)) xs
      | _ \<Rightarrow> Inl TypeError)"

definition handle_key_generation_phase :: "library \<Rightarrow> world \<Rightarrow> state \<Rightarrow> state outcome" where
  "handle_key_generation_phase L w st =
     (case for_participants (store_encryption_key_part w) (participants (self st)) of
        (Some e, ps) \<Rightarrow> Raised e (st\<lparr>self := (self st)\<lparr>participants := ps\<rparr>\<rparr>)
      | (None, ps) \<Rightarrow>
          (case reduce_add_from L (encryption_key_part (self st))
                  (map p_encryption_key_part ps) of
             Inl e \<Rightarrow> Raised e (st\<lparr>self := (self st)\<lparr>participants := ps\<rparr>\<rparr>)
           | Inr ek \<Rightarrow>
               Returned (st\<lparr>self := (self st)\<lparr>participants := ps, encryption_key := ek,
                                              phase := key_publication\<rparr>\<rparr>)))"

subsection \<open>KeyPublication\<close>

definition store_decryption_key_part ::
  "world \<Rightarrow> ECDKGParticipant \<Rightarrow> error + ECDKGParticipant" where
  "store_decryption_key_part w p =
     (case dec_key_parts w (p_eth_address p) of
        Some s \<Rightarrow>
          (case py_int16 s of
             Inl e \<Rightarrow> Inl e
           | Inr v \<Rightarrow> Inr (p\<lparr>p_decryption_key_part := Some v\<rparr>))
      | None \<Rightarrow> Inl ProtocolError)"

text \<open>\<^verbatim>\<open>sum\<close> over attribute values: adding \<^verbatim>\<open>None\<close> raises \<^verbatim>\<open>TypeError\<close>.\<close>

fun sum_from :: "int \<Rightarrow> int option list \<Rightarrow> error + int" where
  "sum_from acc [] = Inr acc"
| "sum_from acc (None # xs) = Inl TypeError"
| "sum_from acc (Some x # xs) = sum_from (acc + x) xs"

text \<open>\<^verbatim>\<open>self.secret_poly1[0]\<close>.\<close>

definition first_coefficient :: "int list option \<Rightarrow> error + int" where
  "first_coefficient poly = (case poly of
       None \<Rightarrow> Inl TypeError
     | Some [] \<Rightarrow> Inl IndexError
     | Some (a0 # _) \<Rightarrow> Inr a0)"

definition handle_key_publication_phase :: "library \<Rightarrow> world \<Rightarrow> state \<Rightarrow> state outcome" where
  "handle_key_publication_phase L w st =
     (case for_participants (store_decryption_key_part w) (participants (self st)) of
        (Some e, ps) \<Rightarrow> Raised e (st\<lparr>self := (self st)\<lparr>participants := ps\<rparr>\<rparr>)
      | (None, ps) \<Rightarrow>
          (case sum_from 0 (map p_decryption_key_part ps) of
             Inl e \<Rightarrow> Raised e (st\<lparr>self := (self st)\<lparr>participants := ps\<rparr>\<rparr>)
           | Inr parts \<Rightarrow>
               (case first_coefficient (secret_poly1 (self st)) of
                  Inl e \<Rightarrow> Raised e (st\<lparr>self := (self st)\<lparr>participants := ps\<rparr>\<rparr>)
                | Inr a0 \<Rightarrow>
                    Returned (st\<lparr>self := (self st)\<lparr>participants := ps,
                      decryption_key := Some ((parts + a0) mod secp256k1_N),
                      phase := complete\<rparr>\<rparr>))))"

section \<open>The driver\<close>

text \<open>
  \<^verbatim>\<open>getattr(self, 'handle_{}_phase'.format(self.phase.name))()\<close>: the class has no
  method \<^verbatim>\<open>handle_complete_phase\<close>.
\<close>

definition handle_phase :: "library \<Rightarrow> world \<Rightarrow> state \<Rightarrow> state outcome" where
  "handle_phase L w st = (case phase (self st) of
       uninitialized \<Rightarrow> handle_uninitialized_phase L w st
     | key_distribution \<Rightarrow> handle_key_distribution_phase L w st
     | key_verification \<Rightarrow> handle_key_verification_phase L w st
     | key_check \<Rightarrow> handle_key_check_phase L w st
     | key_generation \<Rightarrow> handle_key_generation_phase L w st
     | key_publication \<Rightarrow> handle_key_publication_phase L w st
     | complete \<Rightarrow> Raised AttributeError st)"

text \<open>The \<^verbatim>\<open>while\<close> loop of \<^verbatim>\<open>run_until_phase\<close>; \<open>None\<close> stands for a loop that never ends.\<close>

partial_function (option) run_until_phase ::
  "library \<Rightarrow> world \<Rightarrow> state \<Rightarrow> ECDKGPhase \<Rightarrow> state outcome option" where
  "run_until_phase L w st target_phase =
     (if phase_value (phase (self st)) < phase_value target_phase
      then (case handle_phase L w st of
              Raised e st' \<Rightarrow> Some (Raised e st')
            | Returned st' \<Rightarrow> run_until_phase L w st' target_phase)
      else Some (Returned st))"

section \<open>Status snapshots\<close>

text \<open>
  \<^verbatim>\<open>'{:064x}'.format(v)\<close>: lower-case hexadecimal, zero-padded to the width, the sign
  (if any) counting in the width.
\<close>

fun hex_of_nat :: "nat \<Rightarrow> string" where
  "hex_of_nat n =
     (if n < 16 then [''0123456789abcdef'' ! n]
      else hex_of_nat (n div 16) @ [''0123456789abcdef'' ! (n mod 16)])"

definition zero_pad :: "nat \<Rightarrow> string \<Rightarrow> string" where
  "zero_pad width s = replicate (width - length s) CHR ''0'' @ s"

definition format_x :: "nat \<Rightarrow> int \<Rightarrow> string" where
  "format_x width v =
     (if v < 0 then CHR ''-'' # zero_pad (width - 1) (hex_of_nat (nat (- v)))
      else zero_pad width (hex_of_nat (nat v)))"

text \<open>\<^verbatim>\<open>'{0[0]:064x}{0[1]:064x}'.format(val)\<close> for a point \<^verbatim>\<open>val\<close>.\<close>

definition format_point :: "point \<Rightarrow> string" where
  "format_point val = format_x 64 (fst val) @ format_x 64 (snd val)"

text \<open>
  The same format string applied to a tuple of points: \<^verbatim>\<open>val[0]\<close> raises
  \<^verbatim>\<open>IndexError\<close> on the empty tuple, and otherwise it is a tuple, which rejects the
  format specification \<^verbatim>\<open>064x\<close> with \<^verbatim>\<open>TypeError\<close>.
\<close>

definition format_point_tuple :: "point list \<Rightarrow> error + string" where
  "format_point_tuple val = (case val of
       [] \<Rightarrow> Inl IndexError
     | pt # _ \<Rightarrow> Inl TypeError)"

text \<open>A dictionary in insertion order; \<^verbatim>\<open>msg[k] = v\<close> is \<^const>\<open>AList.update\<close>.\<close>

definition ECDKGParticipant_to_state_message ::
  "ECDKGParticipant \<Rightarrow> error + (string \<times> string) list" where
  "ECDKGParticipant_to_state_message p =
     (let msg = (case p_encryption_key_part p of
                   None \<Rightarrow> []
                 | Some val \<Rightarrow> AList.update ''encryption_key_part'' (format_point val) [])
      in case p_verification_points p of
           None \<Rightarrow> Inr msg
         | Some val \<Rightarrow>
             (case format_point_tuple val of
                Inl e \<Rightarrow> Inl e
              | Inr s \<Rightarrow> Inr (AList.update ''verification_points'' s msg)))"

datatype msg_value =
    MStr string
  | MInt int
  | MPhase ECDKGPhase
  | MParticipants "(string \<times> (string \<times> string) list) list"
  | MStrs "string list"

definition participant_entry ::
  "ECDKGParticipant \<Rightarrow> error + (string \<times> (string \<times> string) list)" where
  "participant_entry p = (case ECDKGParticipant_to_state_message p of
       Inl e \<Rightarrow> Inl e
     | Inr m \<Rightarrow> Inr (format_x 40 (p_eth_address p), m))"

definition set_point_attr ::
  "string \<Rightarrow> point option \<Rightarrow> (string \<times> msg_value) list \<Rightarrow> (string \<times> msg_value) list" where
  "set_point_attr attr val msg = (case val of
       None \<Rightarrow> msg
     | Some pt \<Rightarrow> AList.update attr (MStr (format_point pt)) msg)"

text \<open>
  \<^verbatim>\<open>ECDKG.to_state_message\<close>. The attributes \<^verbatim>\<open>decryption_condition\<close> and \<^verbatim>\<open>phase\<close>
  are never \<^verbatim>\<open>None\<close> in a session made by \<^verbatim>\<open>get_or_create_by_decryption_condition\<close>.
\<close>

definition to_state_message :: "world \<Rightarrow> ECDKG \<Rightarrow> error + (string \<times> msg_value) list" where
  "to_state_message w s =
     (let msg0 = [(''address'', MStr (format_x 40 (own_address w)))];
          msg1 = AList.update ''decryption_condition'' (MStr (decryption_condition s)) msg0;
          msg2 = AList.update ''phase'' (MPhase (phase s)) msg1;
          msg3 = (case threshold s of
                    None \<Rightarrow> msg2
                  | Some t \<Rightarrow> AList.update ''threshold'' (MInt t) msg2)
      in case map_raise participant_entry (participants s) of
           Inl e \<Rightarrow> Inl e
         | Inr entries \<Rightarrow>
             (let msg4 = AList.update ''participants''
                           (MParticipants (foldl (\<lambda>d (k, v). AList.update k v d) [] entries))
                           msg3;
                  msg5 = set_point_attr ''encryption_key'' (encryption_key s) msg4;
                  msg6 = set_point_attr ''encryption_key_part'' (encryption_key_part s) msg5
              in case verification_points s of
                   None \<Rightarrow> Inr msg6
                 | Some vpts \<Rightarrow>
                     Inr (AList.update ''verification_points''
                            (MStrs (map format_point vpts)) msg6)))"

section \<open>Fields fixed at initialisation\<close>

text \<open>
  The attributes that \<^verbatim>\<open>handle_uninitialized_phase\<close> sets once, and the handlers of the
  later phases.
\<close>

definition kept_fields ::
  "ECDKG \<Rightarrow> int option \<times> int list option \<times> int list option \<times> point list option \<times> point option" where
  "kept_fields s = (threshold s, secret_poly1 s, secret_poly2 s, verification_points s,
     encryption_key_part s)"

definition later_handlers :: "(library \<Rightarrow> world \<Rightarrow> state \<Rightarrow> state outcome) list" where
  "later_handlers = [handle_key_distribution_phase, handle_key_verification_phase,
     handle_key_check_phase, handle_key_generation_phase, handle_key_publication_phase]"

section \<open>Auxiliary notions and example sessions\<close>

text \<open>A participant, a session and a transport without replies, for the snapshots.\<close>

definition snapshot_peer :: ECDKGParticipant where
  "snapshot_peer = \<lparr>p_id = 1, p_ecdkg_id = 1, p_eth_address = 0xb0b,
     p_encryption_key_part = Some (1, 2), p_decryption_key_part = None,
     p_verification_points = None, p_secret_share1 = None, p_secret_share2 = None,
     p_shares_signature = None\<rparr>"

definition snapshot_session :: "ECDKGParticipant list \<Rightarrow> ECDKG" where
  "snapshot_session ps = \<lparr>row_id = 1, decryption_condition = ''cond'', phase = key_verification,
     threshold = Some 1, encryption_key = None, decryption_key = None,
     participants = ps, secret_poly1 = Some [5], secret_poly2 = Some [6],
     verification_points = Some [(3, 4)], encryption_key_part = Some (7, 8)\<rparr>"

definition snapshot_world :: world where
  "snapshot_world = \<lparr>own_address = 0xa11ce, channels = [0xb0b],
     random_private_value = (\<lambda>k. 1), signed_secret_shares = Map.empty,
     verification_points_reply = Map.empty, complaints_reply = Map.empty,
     encryption_key_parts = Map.empty, dec_key_parts = Map.empty\<rparr>"

text \<open>
  Modelled from the spec: the helper module \<^verbatim>\<open>util\<close> is not part of the module. The
  specification describes \<^verbatim>\<open>address_to_bytes\<close> as 20 bytes big-endian and
  \<^verbatim>\<open>private_value_to_bytes\<close> as 32 bytes big-endian, zero-padded, with scalars at or above
  \<open>N\<close> invalid.
\<close>

definition int_to_bytes :: "nat \<Rightarrow> int \<Rightarrow> bytes" where
  "int_to_bytes len v = map (\<lambda>i. char_of (v div 256 ^ (len - 1 - i))) [0 ..< len]"

definition example_address_to_bytes :: "int \<Rightarrow> error + bytes" where
  "example_address_to_bytes a =
     (if 0 \<le> a \<and> a < 2 ^ 160 then Inr (int_to_bytes 20 a) else Inl OverflowError)"

definition example_private_value_to_bytes :: "int \<Rightarrow> error + bytes" where
  "example_private_value_to_bytes v =
     (if 0 \<le> v \<and> v < secp256k1_N then Inr (int_to_bytes 32 v) else Inl ValueError)"

text \<open>
  A stand-in for signature recovery, for the examples only: the triplet \<open>(r, s, v)\<close>
  is malformed unless \<open>v\<close> is 27 or 28, and it recovers the address \<open>r\<close> when \<open>s\<close> is
  the length of the signed message, and the address \<open>r + 1\<close> otherwise.
\<close>

definition example_recover :: "bytes \<Rightarrow> signature \<Rightarrow> error + int" where
  "example_recover msg sig = (case sig of (r, s, v) \<Rightarrow>
     if v \<noteq> 27 \<and> v \<noteq> 28 then Inl ValueError
     else if s = int (length msg) then Inr r else Inr (r + 1))"

text \<open>
  The library instance of the examples: the cyclic group of order \<open>N\<close> written on
  exponents, so that the pair \<open>(x, 0)\<close> stands for the point \<open>x\<cdot>G\<close>.
\<close>

definition example_library :: library where
  "example_library = \<lparr>
     secp256k1_add = (\<lambda>P Q. ((fst P + fst Q) mod secp256k1_N, 0)),
     secp256k1_multiply = (\<lambda>P n. ((fst P * n) mod secp256k1_N, 0)),
     secp256k1_G = (1, 0),
     address_to_bytes = example_address_to_bytes,
     private_value_to_bytes = example_private_value_to_bytes,
     address_from_message_and_signature = example_recover\<rparr>"

definition fresh_session :: ECDKG where
  "fresh_session = \<lparr>row_id = 1, decryption_condition = ''cond'', phase = uninitialized,
     threshold = None, encryption_key = None, decryption_key = None,
     participants = [], secret_poly1 = None, secret_poly2 = None,
     verification_points = None, encryption_key_part = None\<rparr>"

definition fresh_state :: state where
  "fresh_state = \<lparr>self = fresh_session, complaint_table = [], participant_seq = 1\<rparr>"

definition four_peers :: world where
  "four_peers = \<lparr>own_address = 0xa11ce, channels = [0xb0b, 0xca7, 0xd09, 0xe1f],
     random_private_value = (\<lambda>k. int k + 2), signed_secret_shares = Map.empty,
     verification_points_reply = Map.empty, complaints_reply = Map.empty,
     encryption_key_parts = Map.empty, dec_key_parts = Map.empty\<rparr>"

definition example_peer :: "nat \<Rightarrow> int \<Rightarrow> ECDKGParticipant" where
  "example_peer i a = \<lparr>p_id = i, p_ecdkg_id = 1, p_eth_address = a,
     p_encryption_key_part = None, p_decryption_key_part = None,
     p_verification_points = None, p_secret_share1 = None, p_secret_share2 = None,
     p_shares_signature = None\<rparr>"

text \<open>
  A session with the peers \<open>0xb0b\<close> and \<open>0xca7\<close> as the Uninitialized handler leaves it
  (threshold 2, own polynomials \<open>7 + x\<close> and \<open>9 + 2x\<close>), moved to the given phase.
\<close>

definition two_peer_state :: "ECDKGPhase \<Rightarrow> state" where
  "two_peer_state ph = \<lparr>self = \<lparr>row_id = 1, decryption_condition = ''cond'', phase = ph,
       threshold = Some 2, encryption_key = None, decryption_key = None,
       participants = [example_peer 1 0xb0b, example_peer 2 0xca7],
       secret_poly1 = Some [7, 1], secret_poly2 = Some [9, 2],
       verification_points =
         Some (map (\<lambda>(a, b). secp256k1_add example_library
                      (secp256k1_multiply example_library (secp256k1_G example_library) a)
                      (secp256k1_multiply example_library G2 b)) [(7, 9), (1, 2)]),
       encryption_key_part =
         Some (secp256k1_multiply example_library (secp256k1_G example_library) 7)\<rparr>,
     complaint_table = [], participant_seq = 3\<rparr>"

text \<open>The wire form of the pair \<open>(x, 0)\<close> for a one-digit \<open>x\<close>, as 128 hexadecimal digits.\<close>

definition hex_point :: "char \<Rightarrow> string" where
  "hex_point d = replicate 63 CHR ''0'' @ [d] @ replicate 64 CHR ''0''"

text \<open>A transport on which only \<open>0xb0b\<close> answers the two key-part requests.\<close>

definition only_b_answers :: "string \<Rightarrow> string \<Rightarrow> world" where
  "only_b_answers ekp dkp = \<lparr>own_address = 0xa11ce, channels = [0xb0b, 0xca7],
     random_private_value = (\<lambda>k. int k + 2), signed_secret_shares = Map.empty,
     verification_points_reply = Map.empty, complaints_reply = Map.empty,
     encryption_key_parts = [0xb0b \<mapsto> ekp], dec_key_parts = [0xb0b \<mapsto> dkp]\<rparr>"

text \<open>
  Replies that begin with the separator 28, which \<^verbatim>\<open>int\<close> does not strip: a scalar and
  a point whose first coordinate begins with it. And a scalar between the spaces U+00A0 and
  U+0085, which \<^verbatim>\<open>int\<close> strips.
\<close>

definition separator_value :: string where
  "separator_value = [CHR 0x1C, CHR ''5'']"

definition separator_point :: string where
  "separator_point = CHR 0x1C # replicate 62 CHR ''0'' @ [CHR ''5''] @ replicate 64 CHR ''0''"

definition nbsp_value :: string where
  "nbsp_value = [CHR 0xA0, CHR ''5'', CHR 0x85]"

text \<open>The three attributes that a delivery of signed shares sets on a participant.\<close>

definition share_fields :: "ECDKGParticipant \<Rightarrow> int option \<times> int option \<times> signature option" where
  "share_fields p = (p_secret_share1 p, p_secret_share2 p, p_shares_signature p)"

text \<open>
  A transport on which \<open>0xb0b\<close> delivers the shares \<open>(11, 12)\<close> with a signature that
  recovers its own address over the 100 bytes of the message, and \<open>0xca7\<close> delivers
  the shares \<open>(13, 14)\<close> with a malformed signature.
\<close>

definition shares_world :: world where
  "shares_world = \<lparr>own_address = 0xa11ce, channels = [0xb0b, 0xca7],
     random_private_value = (\<lambda>k. int k + 2),
     signed_secret_shares = [0xb0b \<mapsto> ((11, 12), (0xb0b, 100, 27)),
                             0xca7 \<mapsto> ((13, 14), (0xca7, 100, 29))],
     verification_points_reply = Map.empty, complaints_reply = Map.empty,
     encryption_key_parts = Map.empty, dec_key_parts = Map.empty\<rparr>"

text \<open>A transport on which \<open>0xb0b\<close> publishes the single point \<open>(1, 0)\<close>.\<close>

definition off_curve_world :: world where
  "off_curve_world = \<lparr>own_address = 0xa11ce, channels = [0xb0b, 0xca7],
     random_private_value = (\<lambda>k. int k + 2), signed_secret_shares = Map.empty,
     verification_points_reply =
       [0xb0b \<mapsto> [hex_point CHR ''1'']],
     complaints_reply = Map.empty,
     encryption_key_parts = Map.empty, dec_key_parts = Map.empty\<rparr>"

text \<open>
  A transport on which both peers are honest: \<open>0xb0b\<close> holds the secret 5 and \<open>0xca7\<close>
  the secret 3; each publishes its secret times \<open>G\<close> and later the secret itself.
\<close>

definition honest_world :: world where
  "honest_world = \<lparr>own_address = 0xa11ce, channels = [0xb0b, 0xca7],
     random_private_value = (\<lambda>k. int k + 2), signed_secret_shares = Map.empty,
     verification_points_reply = Map.empty, complaints_reply = Map.empty,
     encryption_key_parts = [0xb0b \<mapsto> hex_point CHR ''5'', 0xca7 \<mapsto> hex_point CHR ''3''],
     dec_key_parts = [0xb0b \<mapsto> ''05'', 0xca7 \<mapsto> ''03'']\<rparr>"

text \<open>The rows of the complaint table for one participant and one complainer.\<close>

definition complaints_against ::
  "ECDKGComplaint list \<Rightarrow> ECDKGParticipant \<Rightarrow> int \<Rightarrow> ECDKGComplaint list" where
  "complaints_against table p address =
     filter (\<lambda>c. c_participant_id c = p_id p \<and> c_complainer_address c = address) table"

section \<open>Verified properties\<close>

subsection \<open>Snapshots and complaint queries\<close>

lemma map_raise_Inr_iff:
  "(\<exists>ys. map_raise f xs = Inr ys) \<longleftrightarrow> (\<forall>x \<in> set xs. \<exists>y. f x = Inr y)"
  by (induction xs) (auto split: sum.splits)

lemma map_raise_Inr_nth:
  "map_raise f xs = Inr ys \<Longrightarrow> length ys = length xs \<and> (\<forall>i < length xs. f (xs ! i) = Inr (ys ! i))"
proof (induction xs arbitrary: ys)
  case Nil
  then show ?case by simp
next
  case (Cons x xs)
  then show ?case
    by (auto split: sum.splits simp: nth_Cons split: nat.splits)
qed

lemma set_foldl_update:
  "set (foldl (\<lambda>d (k, v). AList.update k v d) d entries) \<subseteq> set d \<union> set entries"
proof (induction entries arbitrary: d)
  case Nil
  then show ?case by simp
next
  case (Cons kv entries)
  obtain k v where kv: "kv = (k, v)" by (cases kv)
  have "set (AList.update k v d) \<subseteq> set d \<union> {(k, v)}"
    by (induction d) auto
  with Cons[of "AList.update k v d"] kv show ?case
    by auto
qed

lemma participant_msg_fields:
  "ECDKGParticipant_to_state_message p = Inr msg \<Longrightarrow>
     p_verification_points p = None \<and> set (map fst msg) \<subseteq> {''encryption_key_part''}"
  by (auto simp: ECDKGParticipant_to_state_message_def format_point_tuple_def Let_def
      split: option.splits list.splits if_splits)

lemma participant_msg_raises:
  "p_verification_points p = Some val \<Longrightarrow> \<exists>e. ECDKGParticipant_to_state_message p = Inl e"
  by (auto simp: ECDKGParticipant_to_state_message_def format_point_tuple_def Let_def
      split: option.splits list.splits)

lemma to_state_message_Inr_iff:
  "(\<exists>m. to_state_message w s = Inr m) \<longleftrightarrow> (\<forall>p \<in> set (participants s). p_verification_points p = None)"
proof -
  have "(\<exists>m. to_state_message w s = Inr m) \<longleftrightarrow> (\<exists>es. map_raise participant_entry (participants s) = Inr es)"
    by (auto simp: to_state_message_def Let_def split: sum.splits option.splits)
  also have "\<dots> \<longleftrightarrow> (\<forall>p \<in> set (participants s). \<exists>y. participant_entry p = Inr y)"
    by (rule map_raise_Inr_iff)
  also have "\<dots> \<longleftrightarrow> (\<forall>p \<in> set (participants s). p_verification_points p = None)"
  proof -
    have "(\<exists>y. participant_entry p = Inr y) \<longleftrightarrow> p_verification_points p = None" for p
      by (auto simp: participant_entry_def ECDKGParticipant_to_state_message_def
          format_point_tuple_def Let_def split: sum.splits option.splits list.splits)
    then show ?thesis by simp
  qed
  finally show ?thesis .
qed

lemma map_of_participants_entry:
  assumes "to_state_message w s = Inr m"
  shows "\<exists>es. map_raise participant_entry (participants s) = Inr es \<and>
     map_of m ''participants'' =
       Some (MParticipants (foldl (\<lambda>d (k, v). AList.update k v d) [] es))"
  using assms
  by (auto simp: to_state_message_def Let_def set_point_attr_def update_conv'
      split: sum.splits option.splits)

text \<open>
  C10. \<^verbatim>\<open>ECDKGParticipant.to_state_message\<close> raises whenever the participant's
  \<^verbatim>\<open>verification_points\<close> are set, so \<^verbatim>\<open>ECDKG.to_state_message\<close> raises as soon as one
  participant has them; when either method returns, a participant entry has no key but
  \<^verbatim>\<open>encryption_key_part\<close>.
\<close>

theorem to_state_message_verification_points:
  "(p_verification_points p \<noteq> None \<longrightarrow> (\<exists>e. ECDKGParticipant_to_state_message p = Inl e)) \<and>
   ((\<exists>q \<in> set (participants s). p_verification_points q \<noteq> None) \<longrightarrow>
      (\<exists>e. to_state_message w s = Inl e)) \<and>
   (ECDKGParticipant_to_state_message p = Inr msg \<longrightarrow>
      set (map fst msg) \<subseteq> {''encryption_key_part''}) \<and>
   (to_state_message w s = Inr m \<longrightarrow>
      (\<exists>d. map_of m ''participants'' = Some (MParticipants d) \<and>
           (\<forall>entry \<in> set d. set (map fst (snd entry)) \<subseteq> {''encryption_key_part''})))"
proof (intro conjI impI)
  assume "p_verification_points p \<noteq> None"
  then show "\<exists>e. ECDKGParticipant_to_state_message p = Inl e"
    using participant_msg_raises by auto
next
  assume "\<exists>q \<in> set (participants s). p_verification_points q \<noteq> None"
  then have "\<not> (\<exists>m. to_state_message w s = Inr m)"
    by (simp add: to_state_message_Inr_iff)
  then show "\<exists>e. to_state_message w s = Inl e"
    by (cases "to_state_message w s") auto
next
  assume "ECDKGParticipant_to_state_message p = Inr msg"
  then show "set (map fst msg) \<subseteq> {''encryption_key_part''}"
    using participant_msg_fields by blast
next
  assume ok: "to_state_message w s = Inr m"
  then obtain es where es: "map_raise participant_entry (participants s) = Inr es"
    and m: "map_of m ''participants'' =
       Some (MParticipants (foldl (\<lambda>d (k, v). AList.update k v d) [] es))"
    using map_of_participants_entry by blast
  have each: "set (map fst (snd entry)) \<subseteq> {''encryption_key_part''}" if "entry \<in> set es" for entry
  proof -
    from that obtain i where i: "i < length es" "es ! i = entry"
      by (auto simp: in_set_conv_nth)
    from map_raise_Inr_nth[OF es] i
    have "participant_entry (participants s ! i) = Inr entry" by auto
    then have "ECDKGParticipant_to_state_message (participants s ! i) = Inr (snd entry)"
      by (auto simp: participant_entry_def split: sum.splits)
    then show ?thesis using participant_msg_fields by blast
  qed
  have "set (foldl (\<lambda>d (k, v). AList.update k v d) [] es) \<subseteq> set es"
    using set_foldl_update[of "[]" es] by simp
  with each m
  show "\<exists>d. map_of m ''participants'' = Some (MParticipants d) \<and>
           (\<forall>entry \<in> set d. set (map fst (snd entry)) \<subseteq> {''encryption_key_part''})"
    by blast
qed

theorem to_state_message_verification_points_witness:
  "p_verification_points (snapshot_peer\<lparr>p_verification_points := Some [(3, 4)]\<rparr>) \<noteq> None \<and>
   (\<exists>e. ECDKGParticipant_to_state_message
           (snapshot_peer\<lparr>p_verification_points := Some [(3, 4)]\<rparr>) = Inl e) \<and>
   (\<exists>e. to_state_message snapshot_world
           (snapshot_session [snapshot_peer\<lparr>p_verification_points := Some [(3, 4)]\<rparr>]) = Inl e) \<and>
   ECDKGParticipant_to_state_message snapshot_peer =
     Inr [(''encryption_key_part'', format_point (1, 2))] \<and>
   set (map fst [(''encryption_key_part'', format_point (1, 2))]) \<subseteq> {''encryption_key_part''} \<and>
   (\<exists>m d. to_state_message snapshot_world (snapshot_session [snapshot_peer]) = Inr m \<and>
      map_of m ''participants'' = Some (MParticipants d) \<and>
      list_all (\<lambda>entry. set (map fst (snd entry)) \<subseteq> {''encryption_key_part''}) d)"
proof -
  let ?bad = "snapshot_peer\<lparr>p_verification_points := Some [(3, 4)]\<rparr>"
  have h1: "p_verification_points ?bad \<noteq> None" by simp
  have h2: "\<exists>q \<in> set (participants (snapshot_session [?bad])). p_verification_points q \<noteq> None"
    by (simp add: snapshot_session_def)
  have h3: "ECDKGParticipant_to_state_message snapshot_peer =
     Inr [(''encryption_key_part'', format_point (1, 2))]"
    by (simp add: ECDKGParticipant_to_state_message_def snapshot_peer_def)
  have "\<forall>q \<in> set (participants (snapshot_session [snapshot_peer])). p_verification_points q = None"
    by (simp add: snapshot_session_def snapshot_peer_def)
  then obtain m where h4: "to_state_message snapshot_world (snapshot_session [snapshot_peer]) = Inr m"
    using to_state_message_Inr_iff by blast
  note t1 = to_state_message_verification_points
    [of ?bad "snapshot_session [?bad]" snapshot_world "[]" "[]"]
  note t2 = to_state_message_verification_points
    [of snapshot_peer "snapshot_session [snapshot_peer]" snapshot_world
        "[(''encryption_key_part'', format_point (1, 2))]" m]
  from t1 h1 h2 have a: "(\<exists>e. ECDKGParticipant_to_state_message ?bad = Inl e) \<and>
     (\<exists>e. to_state_message snapshot_world (snapshot_session [?bad]) = Inl e)"
    by blast
  from t2 h3 h4 have b: "set (map fst [(''encryption_key_part'', format_point (1, 2))])
       \<subseteq> {''encryption_key_part''} \<and>
     (\<exists>d. map_of m ''participants'' = Some (MParticipants d) \<and>
        (\<forall>entry \<in> set d. set (map fst (snd entry)) \<subseteq> {''encryption_key_part''}))"
    by blast
  from a b h1 h3 h4 show ?thesis
    unfolding list_all_iff by blast
qed

text \<open>
  C9. \<^verbatim>\<open>get_complaints_by(address)\<close> returns exactly the rows of the complaint table
  whose complainer is the address, whatever session it is called on: the participants of
  \<^verbatim>\<open>self\<close> play no part.
\<close>

theorem get_complaints_by_every_session:
  "set (get_complaints_by st address) =
     {c. c \<in> set (complaint_table st) \<and> c_complainer_address c = address} \<and>
   length (get_complaints_by st address) =
     length (filter (\<lambda>c. c_complainer_address c = address) (complaint_table st)) \<and>
   (\<forall>other. get_complaints_by (st\<lparr>self := other\<rparr>) address = get_complaints_by st address)"
  by (auto simp: get_complaints_by_def)

subsection \<open>The Uninitialized handler\<close>

lemma ceil_threshold_eq: "ceil_threshold n = (int n + 2) div 2"
proof -
  have "THRESHOLD_FACTOR * real (n + 1) = of_int (int n + 1) / of_int 2"
    by (simp add: THRESHOLD_FACTOR_def)
  then have "ceil_threshold n = - (- (int n + 1) div 2)"
    unfolding ceil_threshold_def by (simp only: ceiling_divide_eq_div)
  then show ?thesis by linarith
qed

lemma length_random_polynomial: "length (random_polynomial w first t) = nat t"
  by (simp add: random_polynomial_def)

lemma scalar_distinct:
  assumes "distinct (map f xs)"
  shows "scalar (filter (\<lambda>p. f p = a) xs) = Inr (find (\<lambda>p. f p = a) xs)"
  using assms
proof (induction xs)
  case Nil
  then show ?case by (simp add: scalar_def)
next
  case (Cons x xs)
  show ?case
  proof (cases "f x = a")
    case True
    with Cons.prems have "a \<notin> f ` set xs"
      by simp
    then have "filter (\<lambda>p. f p = a) xs = []"
      unfolding filter_empty_conv by blast
    with True show ?thesis by (simp add: scalar_def)
  next
    case False
    with Cons show ?thesis by simp
  qed
qed

lemma get_or_create_participant_distinct:
  assumes "distinct (map p_eth_address (participants (self st)))"
  shows "\<exists>st'. get_or_create_participant_by_address st a = Returned st' \<and>
     distinct (map p_eth_address (participants (self st'))) \<and>
     map p_eth_address (participants (self st')) =
       (if a \<in> set (map p_eth_address (participants (self st)))
        then map p_eth_address (participants (self st))
        else map p_eth_address (participants (self st)) @ [a]) \<and>
     complaint_table st' = complaint_table st \<and>
     (self st')\<lparr>participants := participants (self st)\<rparr> = self st"
proof (cases "find (\<lambda>p. p_eth_address p = a) (participants (self st))")
  case None
  then have "a \<notin> set (map p_eth_address (participants (self st)))"
    by (auto simp: find_None_iff)
  with None assms show ?thesis
    by (simp add: get_or_create_participant_by_address_def scalar_distinct)
next
  case (Some p)
  then have "a \<in> set (map p_eth_address (participants (self st)))"
    by (auto simp: find_Some_iff)
  with Some assms show ?thesis
    by (simp add: get_or_create_participant_by_address_def scalar_distinct)
qed

lemma uninitialized_loop_returns:
  assumes "distinct (map p_eth_address (participants (self st)))"
  shows "\<exists>st'. uninitialized_loop st addrs = Returned st' \<and>
     distinct (map p_eth_address (participants (self st'))) \<and>
     set (map p_eth_address (participants (self st'))) =
       set (map p_eth_address (participants (self st))) \<union> set addrs \<and>
     complaint_table st' = complaint_table st \<and>
     (self st')\<lparr>participants := participants (self st)\<rparr> = self st"
  using assms
proof (induction addrs arbitrary: st)
  case Nil
  then show ?case by simp
next
  case (Cons a addrs)
  from get_or_create_participant_distinct[OF Cons.prems, of a]
  obtain st1 where st1: "get_or_create_participant_by_address st a = Returned st1"
    "distinct (map p_eth_address (participants (self st1)))"
    "map p_eth_address (participants (self st1)) =
       (if a \<in> set (map p_eth_address (participants (self st)))
        then map p_eth_address (participants (self st))
        else map p_eth_address (participants (self st)) @ [a])"
    "complaint_table st1 = complaint_table st"
    "(self st1)\<lparr>participants := participants (self st)\<rparr> = self st"
    by blast
  from Cons.IH[OF st1(2)]
  obtain st' where st': "uninitialized_loop st1 addrs = Returned st'"
    "distinct (map p_eth_address (participants (self st')))"
    "set (map p_eth_address (participants (self st'))) =
       set (map p_eth_address (participants (self st1))) \<union> set addrs"
    "complaint_table st' = complaint_table st1"
    "(self st')\<lparr>participants := participants (self st1)\<rparr> = self st1"
    by blast
  have "(self st')\<lparr>participants := participants (self st)\<rparr> = self st"
  proof -
    have "(self st')\<lparr>participants := participants (self st)\<rparr> =
          ((self st')\<lparr>participants := participants (self st1)\<rparr>)\<lparr>participants := participants (self st)\<rparr>"
      by simp
    with st'(5) st1(5) show ?thesis by simp
  qed
  moreover have "set (map p_eth_address (participants (self st'))) =
       set (map p_eth_address (participants (self st))) \<union> set (a # addrs)"
    using st'(3) st1(3) by (auto split: if_splits)
  ultimately show ?case using st1(1,4) st'(1,2,4) by simp
qed

lemma uninitialized_loop_fresh:
  assumes "distinct (map p_eth_address (participants (self st)) @ addrs)"
  shows "\<exists>st'. uninitialized_loop st addrs = Returned st' \<and>
     map p_eth_address (participants (self st')) =
       map p_eth_address (participants (self st)) @ addrs"
  using assms
proof (induction addrs arbitrary: st)
  case Nil
  then show ?case by simp
next
  case (Cons a addrs)
  from Cons.prems have d: "distinct (map p_eth_address (participants (self st)))"
    and fresh: "a \<notin> set (map p_eth_address (participants (self st)))"
    by auto
  from get_or_create_participant_distinct[OF d, of a] fresh
  obtain st1 where st1: "get_or_create_participant_by_address st a = Returned st1"
    "map p_eth_address (participants (self st1)) = map p_eth_address (participants (self st)) @ [a]"
    by auto
  from Cons.prems st1(2) have "distinct (map p_eth_address (participants (self st1)) @ addrs)"
    by auto
  from Cons.IH[OF this] st1 show ?case by auto
qed

lemma handle_uninitialized_Returned:
  assumes "handle_uninitialized_phase L w st = Returned st'"
  shows "\<exists>st1 t. uninitialized_loop st (channels w) = Returned st1 \<and>
     t = ceil_threshold (length (participants (self st1))) \<and> 1 \<le> t \<and>
     participants (self st') = participants (self st1) \<and>
     complaint_table st' = complaint_table st1 \<and>
     threshold (self st') = Some t \<and>
     secret_poly1 (self st') = Some (random_polynomial w 0 t) \<and>
     secret_poly2 (self st') = Some (random_polynomial w (nat t) t) \<and>
     verification_points (self st') =
       Some (map (\<lambda>(a, b). secp256k1_add L (secp256k1_multiply L (secp256k1_G L) a)
                                (secp256k1_multiply L G2 b))
               (zip (random_polynomial w 0 t) (random_polynomial w (nat t) t))) \<and>
     encryption_key_part (self st') =
       Some (secp256k1_multiply L (secp256k1_G L) (hd (random_polynomial w 0 t))) \<and>
     phase (self st') = key_distribution"
proof -
  from assms obtain st1 where st1: "uninitialized_loop st (channels w) = Returned st1"
    by (auto simp: handle_uninitialized_phase_def split: outcome.splits)
  define t where "t = ceil_threshold (length (participants (self st1)))"
  define p1 where "p1 = random_polynomial w 0 t"
  have len: "length p1 = nat t"
    unfolding p1_def by (rule length_random_polynomial)
  have pos: "1 \<le> t"
    unfolding t_def ceil_threshold_eq by linarith
  from assms st1 have "p1 \<noteq> []"
    unfolding p1_def t_def
    by (auto simp: handle_uninitialized_phase_def Let_def split: list.splits)
  then obtain a0 rest where p1: "p1 = a0 # rest"
    by (cases p1) auto
  from assms st1 p1 have "st' = st1\<lparr>self := (self st1)\<lparr>threshold := Some t,
       secret_poly1 := Some p1, secret_poly2 := Some (random_polynomial w (length p1) t),
       encryption_key_part := Some (secp256k1_multiply L (secp256k1_G L) a0),
       verification_points :=
         Some (map (\<lambda>(a, b). secp256k1_add L (secp256k1_multiply L (secp256k1_G L) a)
                                  (secp256k1_multiply L G2 b))
                 (zip p1 (random_polynomial w (length p1) t))),
       phase := key_distribution\<rparr>\<rparr>"
    unfolding p1_def t_def
    by (simp add: handle_uninitialized_phase_def Let_def)
  then have "participants (self st') = participants (self st1) \<and>
     complaint_table st' = complaint_table st1 \<and>
     threshold (self st') = Some t \<and>
     secret_poly1 (self st') = Some p1 \<and>
     secret_poly2 (self st') = Some (random_polynomial w (nat t) t) \<and>
     verification_points (self st') =
       Some (map (\<lambda>(a, b). secp256k1_add L (secp256k1_multiply L (secp256k1_G L) a)
                                (secp256k1_multiply L G2 b))
               (zip p1 (random_polynomial w (nat t) t))) \<and>
     encryption_key_part (self st') = Some (secp256k1_multiply L (secp256k1_G L) (hd p1)) \<and>
     phase (self st') = key_distribution"
    using len p1 by simp
  with st1 pos show ?thesis
    unfolding p1_def t_def by blast
qed

lemma handle_uninitialized_returns:
  assumes "distinct (map p_eth_address (participants (self st)))"
  shows "\<exists>st'. handle_uninitialized_phase L w st = Returned st'"
proof -
  from uninitialized_loop_returns[OF assms, of "channels w"]
  obtain st1 where st1: "uninitialized_loop st (channels w) = Returned st1" by blast
  define t where "t = ceil_threshold (length (participants (self st1)))"
  have "1 \<le> t" unfolding t_def ceil_threshold_eq by linarith
  then have "random_polynomial w 0 t \<noteq> []"
    using length_random_polynomial[of w 0 t] by auto
  then obtain a0 rest where "random_polynomial w 0 t = a0 # rest"
    by (cases "random_polynomial w 0 t") auto
  with st1 show ?thesis
    unfolding t_def by (simp add: handle_uninitialized_phase_def Let_def)
qed

lemma kept_by_key_distribution:
  "kept_fields (self (state_of (handle_key_distribution_phase L w st))) = kept_fields (self st)"
  by (simp add: handle_key_distribution_phase_def kept_fields_def
      split: prod.splits option.splits)

lemma kept_by_key_verification:
  "kept_fields (self (state_of (handle_key_verification_phase L w st))) = kept_fields (self st)"
  by (simp add: handle_key_verification_phase_def kept_fields_def
      split: prod.splits option.splits)

lemma kept_by_key_check:
  "kept_fields (self (state_of (handle_key_check_phase L w st))) = kept_fields (self st)"
  by (simp add: handle_key_check_phase_def kept_fields_def)

lemma kept_by_key_generation:
  "kept_fields (self (state_of (handle_key_generation_phase L w st))) = kept_fields (self st)"
  by (simp add: handle_key_generation_phase_def kept_fields_def
      split: prod.splits option.splits sum.splits)

lemma kept_by_key_publication:
  "kept_fields (self (state_of (handle_key_publication_phase L w st))) = kept_fields (self st)"
  by (simp add: handle_key_publication_phase_def kept_fields_def
      split: prod.splits option.splits sum.splits)

lemma handle_uninitialized_fields:
  assumes r: "handle_uninitialized_phase L w st = Returned st'"
  defines "t \<equiv> ceil_threshold (length (participants (self st')))"
  shows "threshold (self st') = Some t"
    and "secret_poly1 (self st') = Some (random_polynomial w 0 t)"
    and "secret_poly2 (self st') = Some (random_polynomial w (nat t) t)"
    and "verification_points (self st') =
       Some (map (\<lambda>(a, b). secp256k1_add L (secp256k1_multiply L (secp256k1_G L) a)
                                (secp256k1_multiply L G2 b))
               (zip (random_polynomial w 0 t) (random_polynomial w (nat t) t)))"
    and "encryption_key_part (self st') =
       Some (secp256k1_multiply L (secp256k1_G L) (hd (random_polynomial w 0 t)))"
    and "phase (self st') = key_distribution"
    and "1 \<le> t"
proof -
  from handle_uninitialized_Returned[OF r] obtain st1 :: state and u where
    u: "u = ceil_threshold (length (participants (self st1)))"
    and ps: "participants (self st') = participants (self st1)"
    and f: "1 \<le> u" "threshold (self st') = Some u"
      "secret_poly1 (self st') = Some (random_polynomial w 0 u)"
      "secret_poly2 (self st') = Some (random_polynomial w (nat u) u)"
      "verification_points (self st') =
        Some (map (\<lambda>(a, b). secp256k1_add L (secp256k1_multiply L (secp256k1_G L) a)
                                (secp256k1_multiply L G2 b))
               (zip (random_polynomial w 0 u) (random_polynomial w (nat u) u)))"
      "encryption_key_part (self st') =
        Some (secp256k1_multiply L (secp256k1_G L) (hd (random_polynomial w 0 u)))"
      "phase (self st') = key_distribution"
    by blast
  have "u = t" unfolding t_def u ps ..
  with f show "threshold (self st') = Some t"
    and "secret_poly1 (self st') = Some (random_polynomial w 0 t)"
    and "secret_poly2 (self st') = Some (random_polynomial w (nat t) t)"
    and "verification_points (self st') =
       Some (map (\<lambda>(a, b). secp256k1_add L (secp256k1_multiply L (secp256k1_G L) a)
                                (secp256k1_multiply L G2 b))
               (zip (random_polynomial w 0 t) (random_polynomial w (nat t) t)))"
    and "encryption_key_part (self st') =
       Some (secp256k1_multiply L (secp256k1_G L) (hd (random_polynomial w 0 t)))"
    and "phase (self st') = key_distribution"
    and "1 \<le> t"
    by blast+
qed

lemma handle_uninitialized_participants:
  assumes r: "handle_uninitialized_phase L w st = Returned st'"
  shows "\<exists>st1. uninitialized_loop st (channels w) = Returned st1 \<and>
     participants (self st') = participants (self st1) \<and>
     complaint_table st' = complaint_table st1"
  using handle_uninitialized_Returned[OF r] by blast

text \<open>
  C6. When the Uninitialized handler returns, the threshold is
  \<open>\<lceil>0.5 \<sqdot> (n + 1)\<rceil>\<close> for the number \<open>n\<close> of participant records of the session, and
  both secret polynomials and the tuple of verification points have exactly that many
  elements. With four distinct peers and no earlier participant record the handler
  returns with four participants and threshold 3.
\<close>

theorem uninitialized_threshold:
  "(handle_uninitialized_phase L w st = Returned st' \<longrightarrow>
      threshold (self st') =
        Some \<lceil>THRESHOLD_FACTOR * real (length (participants (self st')) + 1)\<rceil> \<and>
      (\<exists>p1 p2 vp. secret_poly1 (self st') = Some p1 \<and> secret_poly2 (self st') = Some p2 \<and>
         verification_points (self st') = Some vp \<and>
         threshold (self st') = Some (int (length p1)) \<and>
         length p2 = length p1 \<and> length vp = length p1)) \<and>
   (participants (self st) = [] \<and> distinct (channels w) \<and> length (channels w) = 4 \<longrightarrow>
      (\<exists>st' p1 p2 vp. handle_uninitialized_phase L w st = Returned st' \<and>
         map p_eth_address (participants (self st')) = channels w \<and>
         threshold (self st') = Some 3 \<and>
         secret_poly1 (self st') = Some p1 \<and> secret_poly2 (self st') = Some p2 \<and>
         verification_points (self st') = Some vp \<and>
         length p1 = 3 \<and> length p2 = 3 \<and> length vp = 3))"
proof (intro conjI impI)
  assume r: "handle_uninitialized_phase L w st = Returned st'"
  note f = handle_uninitialized_fields[OF r]
  show "threshold (self st') =
        Some \<lceil>THRESHOLD_FACTOR * real (length (participants (self st')) + 1)\<rceil>"
    using f(1) by (simp only: ceil_threshold_def)
  show "\<exists>p1 p2 vp. secret_poly1 (self st') = Some p1 \<and> secret_poly2 (self st') = Some p2 \<and>
         verification_points (self st') = Some vp \<and>
         threshold (self st') = Some (int (length p1)) \<and>
         length p2 = length p1 \<and> length vp = length p1"
    using f(1,2,3,4,7) by (simp add: length_random_polynomial)
next
  assume a: "participants (self st) = [] \<and> distinct (channels w) \<and> length (channels w) = 4"
  then have "distinct (map p_eth_address (participants (self st)) @ channels w)" by simp
  from uninitialized_loop_fresh[OF this] a obtain st1 where
    st1: "uninitialized_loop st (channels w) = Returned st1"
      "map p_eth_address (participants (self st1)) = channels w"
    by auto
  from a have "distinct (map p_eth_address (participants (self st)))" by simp
  from handle_uninitialized_returns[OF this] obtain st' where
    r: "handle_uninitialized_phase L w st = Returned st'" by blast
  from handle_uninitialized_participants[OF r] st1(1)
  have ps: "participants (self st') = participants (self st1)" by simp
  have "length (map p_eth_address (participants (self st1))) = 4"
    using st1(2) a by simp
  then have n: "length (participants (self st')) = 4"
    using ps by simp
  have t3: "ceil_threshold (length (participants (self st'))) = 3"
    unfolding n ceil_threshold_eq by simp
  note f = handle_uninitialized_fields[OF r, unfolded t3]
  have "handle_uninitialized_phase L w st = Returned st' \<and>
         map p_eth_address (participants (self st')) = channels w \<and>
         threshold (self st') = Some 3 \<and>
         secret_poly1 (self st') = Some (random_polynomial w 0 3) \<and>
         secret_poly2 (self st') = Some (random_polynomial w (nat 3) 3) \<and>
         verification_points (self st') =
           Some (map (\<lambda>(a, b). secp256k1_add L (secp256k1_multiply L (secp256k1_G L) a)
                                (secp256k1_multiply L G2 b))
               (zip (random_polynomial w 0 3) (random_polynomial w (nat 3) 3))) \<and>
         length (random_polynomial w 0 3) = 3 \<and> length (random_polynomial w (nat 3) 3) = 3 \<and>
         length (map (\<lambda>(a, b). secp256k1_add L (secp256k1_multiply L (secp256k1_G L) a)
                                (secp256k1_multiply L G2 b))
               (zip (random_polynomial w 0 3) (random_polynomial w (nat 3) 3))) = 3"
    using r f(1,2,3,4) ps st1(2) by (simp add: length_random_polynomial)
  then show "\<exists>st' p1 p2 vp. handle_uninitialized_phase L w st = Returned st' \<and>
         map p_eth_address (participants (self st')) = channels w \<and>
         threshold (self st') = Some 3 \<and>
         secret_poly1 (self st') = Some p1 \<and> secret_poly2 (self st') = Some p2 \<and>
         verification_points (self st') = Some vp \<and>
         length p1 = 3 \<and> length p2 = 3 \<and> length vp = 3"
    by blast
qed

theorem uninitialized_threshold_witness:
  "participants (self fresh_state) = [] \<and> distinct (channels four_peers) \<and>
   length (channels four_peers) = 4 \<and>
   (\<exists>st'. handle_uninitialized_phase example_library four_peers fresh_state = Returned st' \<and>
      map p_eth_address (participants (self st')) = [0xb0b, 0xca7, 0xd09, 0xe1f] \<and>
      threshold (self st') = Some 3 \<and>
      threshold (self st') =
        Some \<lceil>THRESHOLD_FACTOR * real (length (participants (self st')) + 1)\<rceil> \<and>
      map (map_option length) [secret_poly1 (self st'), secret_poly2 (self st')] =
        [Some 3, Some 3] \<and>
      map_option length (verification_points (self st')) = Some 3)"
proof -
  have h: "participants (self fresh_state) = [] \<and> distinct (channels four_peers) \<and>
     length (channels four_peers) = 4"
    by (simp add: fresh_state_def fresh_session_def four_peers_def)
  from uninitialized_threshold[of example_library four_peers fresh_state] h
  obtain st' p1 p2 vp where
    r: "handle_uninitialized_phase example_library four_peers fresh_state = Returned st'"
      "map p_eth_address (participants (self st')) = channels four_peers"
      "threshold (self st') = Some 3"
      "secret_poly1 (self st') = Some p1" "secret_poly2 (self st') = Some p2"
      "verification_points (self st') = Some vp"
      "length p1 = 3" "length p2 = 3" "length vp = 3"
    by blast
  from uninitialized_threshold[of example_library four_peers fresh_state st'] r(1)
  have c: "threshold (self st') =
        Some \<lceil>THRESHOLD_FACTOR * real (length (participants (self st')) + 1)\<rceil>"
    by blast
  have ch: "channels four_peers = [0xb0b, 0xca7, 0xd09, 0xe1f]"
    by (simp add: four_peers_def)
  from r c have "handle_uninitialized_phase example_library four_peers fresh_state = Returned st' \<and>
      map p_eth_address (participants (self st')) = [0xb0b, 0xca7, 0xd09, 0xe1f] \<and>
      threshold (self st') = Some 3 \<and>
      threshold (self st') =
        Some \<lceil>THRESHOLD_FACTOR * real (length (participants (self st')) + 1)\<rceil> \<and>
      map (map_option length) [secret_poly1 (self st'), secret_poly2 (self st')] =
        [Some 3, Some 3] \<and>
      map_option length (verification_points (self st')) = Some 3"
    unfolding ch by simp
  then have "\<exists>st'. handle_uninitialized_phase example_library four_peers fresh_state = Returned st' \<and>
      map p_eth_address (participants (self st')) = [0xb0b, 0xca7, 0xd09, 0xe1f] \<and>
      threshold (self st') = Some 3 \<and>
      threshold (self st') =
        Some \<lceil>THRESHOLD_FACTOR * real (length (participants (self st')) + 1)\<rceil> \<and>
      map (map_option length) [secret_poly1 (self st'), secret_poly2 (self st')] =
        [Some 3, Some 3] \<and>
      map_option length (verification_points (self st')) = Some 3"
    by (rule exI)
  with h show ?thesis by (intro conjI) (elim conjE, assumption)+
qed

lemma nth_commitments:
  assumes "k < length p1" "length p2 = length p1"
  shows "map (\<lambda>(a, b). secp256k1_add L (secp256k1_multiply L (secp256k1_G L) a)
                                (secp256k1_multiply L G2 b)) (zip p1 p2) ! k =
     secp256k1_add L (secp256k1_multiply L (secp256k1_G L) (p1 ! k))
                     (secp256k1_multiply L G2 (p2 ! k))"
  using assms by simp

text \<open>
  C5. When the Uninitialized handler returns, the two polynomials and the verification
  points all have the length of the threshold, and the \<open>k\<close>-th verification point is
  \<open>secret_poly1[k]\<sqdot>G + secret_poly2[k]\<sqdot>G2\<close>. Every later handler leaves these
  attributes (and the threshold and the own encryption key part) as they are, whether
  it returns or raises.
\<close>

theorem commitments_invariant:
  "(handle_uninitialized_phase L w st = Returned st' \<longrightarrow>
      (\<exists>t p1 p2 vp. threshold (self st') = Some (int t) \<and>
         secret_poly1 (self st') = Some p1 \<and> secret_poly2 (self st') = Some p2 \<and>
         verification_points (self st') = Some vp \<and>
         length p1 = t \<and> length p2 = t \<and> length vp = t \<and>
         (\<forall>k<t. vp ! k =
            secp256k1_add L (secp256k1_multiply L (secp256k1_G L) (p1 ! k))
                            (secp256k1_multiply L G2 (p2 ! k))))) \<and>
   (\<forall>h \<in> set later_handlers.
      kept_fields (self (state_of (h L w st))) = kept_fields (self st))"
proof (intro conjI impI ballI)
  assume r: "handle_uninitialized_phase L w st = Returned st'"
  define t where "t = ceil_threshold (length (participants (self st')))"
  define p1 where "p1 = random_polynomial w 0 t"
  define p2 where "p2 = random_polynomial w (nat t) t"
  define vp where "vp = map (\<lambda>(a, b). secp256k1_add L (secp256k1_multiply L (secp256k1_G L) a)
                                (secp256k1_multiply L G2 b)) (zip p1 p2)"
  note f = handle_uninitialized_fields[OF r, folded t_def, folded p1_def p2_def, folded vp_def]
  have l1: "length p1 = nat t" and l2: "length p2 = nat t"
    unfolding p1_def p2_def by (rule length_random_polynomial)+
  then have l3: "length vp = nat t"
    unfolding vp_def by simp
  have th: "threshold (self st') = Some (int (nat t))"
    using f(1,7) by simp
  have "vp ! k = secp256k1_add L (secp256k1_multiply L (secp256k1_G L) (p1 ! k))
                            (secp256k1_multiply L G2 (p2 ! k))" if "k < nat t" for k
    unfolding vp_def using that l1 l2 by (intro nth_commitments) simp_all
  with th f(2,3,4) l1 l2 l3
  show "\<exists>t p1 p2 vp. threshold (self st') = Some (int t) \<and>
         secret_poly1 (self st') = Some p1 \<and> secret_poly2 (self st') = Some p2 \<and>
         verification_points (self st') = Some vp \<and>
         length p1 = t \<and> length p2 = t \<and> length vp = t \<and>
         (\<forall>k<t. vp ! k =
            secp256k1_add L (secp256k1_multiply L (secp256k1_G L) (p1 ! k))
                            (secp256k1_multiply L G2 (p2 ! k)))"
    by blast
next
  fix h assume "h \<in> set later_handlers"
  then consider "h = handle_key_distribution_phase" | "h = handle_key_verification_phase"
    | "h = handle_key_check_phase" | "h = handle_key_generation_phase"
    | "h = handle_key_publication_phase"
    unfolding later_handlers_def by auto
  then show "kept_fields (self (state_of (h L w st))) = kept_fields (self st)"
    by cases
      (simp_all only: kept_by_key_distribution kept_by_key_verification kept_by_key_check
        kept_by_key_generation kept_by_key_publication)
qed

theorem commitments_invariant_witness:
  "(\<exists>st'. handle_uninitialized_phase example_library four_peers fresh_state = Returned st' \<and>
      (\<exists>t p1 p2 vp. threshold (self st') = Some (int t) \<and>
         secret_poly1 (self st') = Some p1 \<and> secret_poly2 (self st') = Some p2 \<and>
         verification_points (self st') = Some vp \<and>
         length p1 = t \<and> length p2 = t \<and> length vp = t \<and>
         list_all (\<lambda>k. vp ! k =
            secp256k1_add example_library
              (secp256k1_multiply example_library (secp256k1_G example_library) (p1 ! k))
              (secp256k1_multiply example_library G2 (p2 ! k))) [0 ..< t])) \<and>
   handle_key_generation_phase \<in> set later_handlers \<and>
   kept_fields (self (state_of (handle_key_generation_phase example_library four_peers fresh_state)))
     = kept_fields (self fresh_state)"
proof -
  have "distinct (map p_eth_address (participants (self fresh_state)))"
    by (simp add: fresh_state_def fresh_session_def)
  from handle_uninitialized_returns[OF this] obtain st' where
    r: "handle_uninitialized_phase example_library four_peers fresh_state = Returned st'"
    by blast
  have m: "handle_key_generation_phase \<in> set later_handlers"
    by (simp add: later_handlers_def)
  note t = commitments_invariant[of example_library four_peers fresh_state st']
  from t r obtain n p1 p2 vp where v: "threshold (self st') = Some (int n)"
      "secret_poly1 (self st') = Some p1" "secret_poly2 (self st') = Some p2"
      "verification_points (self st') = Some vp"
      "length p1 = n" "length p2 = n" "length vp = n"
    and eq: "\<forall>k<n. vp ! k =
            secp256k1_add example_library
              (secp256k1_multiply example_library (secp256k1_G example_library) (p1 ! k))
              (secp256k1_multiply example_library G2 (p2 ! k))"
    by blast
  from eq have "list_all (\<lambda>k. vp ! k =
            secp256k1_add example_library
              (secp256k1_multiply example_library (secp256k1_G example_library) (p1 ! k))
              (secp256k1_multiply example_library G2 (p2 ! k))) [0 ..< n]"
    by (simp add: list_all_iff)
  with v have a: "\<exists>t p1 p2 vp. threshold (self st') = Some (int t) \<and>
         secret_poly1 (self st') = Some p1 \<and> secret_poly2 (self st') = Some p2 \<and>
         verification_points (self st') = Some vp \<and>
         length p1 = t \<and> length p2 = t \<and> length vp = t \<and>
         list_all (\<lambda>k. vp ! k =
            secp256k1_add example_library
              (secp256k1_multiply example_library (secp256k1_G example_library) (p1 ! k))
              (secp256k1_multiply example_library G2 (p2 ! k))) [0 ..< t]"
    by blast
  from t m have b: "kept_fields (self (state_of
       (handle_key_generation_phase example_library four_peers fresh_state)))
     = kept_fields (self fresh_state)"
    by blast
  from r a have "\<exists>st'. handle_uninitialized_phase example_library four_peers fresh_state = Returned st' \<and>
      (\<exists>t p1 p2 vp. threshold (self st') = Some (int t) \<and>
         secret_poly1 (self st') = Some p1 \<and> secret_poly2 (self st') = Some p2 \<and>
         verification_points (self st') = Some vp \<and>
         length p1 = t \<and> length p2 = t \<and> length vp = t \<and>
         list_all (\<lambda>k. vp ! k =
            secp256k1_add example_library
              (secp256k1_multiply example_library (secp256k1_G example_library) (p1 ! k))
              (secp256k1_multiply example_library G2 (p2 ! k))) [0 ..< t])"
    by blast
  with m b show ?thesis by (intro conjI)
qed

subsection \<open>The driver and the order of the phases\<close>

lemma for_participants_length:
  "length (snd (for_participants body ps)) = length ps"
  by (induction ps) (auto split: sum.splits prod.splits)

lemma get_or_create_participant_phase:
  "phase (self (state_of (get_or_create_participant_by_address st a))) = phase (self st)"
  by (simp add: get_or_create_participant_by_address_def split: sum.splits option.splits)

lemma uninitialized_loop_phase:
  "phase (self (state_of (uninitialized_loop st addrs))) = phase (self st)"
proof (induction addrs arbitrary: st)
  case Nil
  then show ?case by simp
next
  case (Cons a addrs)
  show ?case
  proof (cases "get_or_create_participant_by_address st a")
    case (Returned st1)
    with Cons[of st1] get_or_create_participant_phase[of st a] show ?thesis by simp
  next
    case (Raised e st1)
    with get_or_create_participant_phase[of st a] show ?thesis by simp
  qed
qed

lemma handle_uninitialized_phase_sets:
  "handle_uninitialized_phase L w st = Returned st' \<Longrightarrow> phase (self st') = key_distribution"
  "handle_uninitialized_phase L w st = Raised e st' \<Longrightarrow> phase (self st') = phase (self st)"
proof -
  assume "handle_uninitialized_phase L w st = Returned st'"
  then show "phase (self st') = key_distribution"
    by (rule handle_uninitialized_fields(6))
next
  assume r: "handle_uninitialized_phase L w st = Raised e st'"
  show "phase (self st') = phase (self st)"
  proof (cases "uninitialized_loop st (channels w)")
    case (Returned st1)
    with r uninitialized_loop_phase[of st "channels w"] show ?thesis
      by (auto simp: handle_uninitialized_phase_def Let_def split: list.splits)
  next
    case (Raised e1 st1)
    with r uninitialized_loop_phase[of st "channels w"] show ?thesis
      by (auto simp: handle_uninitialized_phase_def)
  qed
qed

lemma handle_key_distribution_phase_sets:
  "handle_key_distribution_phase L w st = Returned st' \<Longrightarrow> phase (self st') = key_verification"
  "handle_key_distribution_phase L w st = Raised e st' \<Longrightarrow> phase (self st') = phase (self st)"
  by (auto simp: handle_key_distribution_phase_def split: prod.splits option.splits)

lemma handle_key_verification_phase_sets:
  "handle_key_verification_phase L w st = Returned st' \<Longrightarrow> phase (self st') = key_check"
  "handle_key_verification_phase L w st = Raised e st' \<Longrightarrow> phase (self st') = phase (self st)"
  by (auto simp: handle_key_verification_phase_def split: prod.splits option.splits)

lemma handle_key_check_phase_sets:
  "handle_key_check_phase L w st = Returned st' \<Longrightarrow> phase (self st') = key_generation"
  "handle_key_check_phase L w st = Raised e st' \<Longrightarrow> phase (self st') = phase (self st)"
  by (auto simp: handle_key_check_phase_def)

lemma handle_key_generation_phase_sets:
  "handle_key_generation_phase L w st = Returned st' \<Longrightarrow> phase (self st') = key_publication"
  "handle_key_generation_phase L w st = Raised e st' \<Longrightarrow> phase (self st') = phase (self st)"
  by (auto simp: handle_key_generation_phase_def split: prod.splits option.splits sum.splits)

lemma handle_key_publication_phase_sets:
  "handle_key_publication_phase L w st = Returned st' \<Longrightarrow> phase (self st') = complete"
  "handle_key_publication_phase L w st = Raised e st' \<Longrightarrow> phase (self st') = phase (self st)"
  by (auto simp: handle_key_publication_phase_def split: prod.splits option.splits sum.splits)

lemmas handler_phase_sets =
  handle_uninitialized_phase_sets handle_key_distribution_phase_sets
  handle_key_verification_phase_sets handle_key_check_phase_sets
  handle_key_generation_phase_sets handle_key_publication_phase_sets

lemma handle_phase_Returned:
  assumes "handle_phase L w st = Returned st'"
  shows "phase_value (phase (self st')) = Suc (phase_value (phase (self st)))"
  using assms
  by (cases "phase (self st)") (auto simp: handle_phase_def dest: handler_phase_sets)

lemma handle_phase_Raised:
  assumes "handle_phase L w st = Raised e st'"
  shows "phase (self st') = phase (self st)"
  using assms
  by (cases "phase (self st)") (auto simp: handle_phase_def dest: handler_phase_sets)

lemma run_until_phase_total:
  "\<exists>r. run_until_phase L w st target = Some r \<and>
     phase_value (phase (self st)) \<le> phase_value (phase (self (state_of r))) \<and>
     (\<forall>st'. r = Returned st' \<longrightarrow> phase_value target \<le> phase_value (phase (self st')))"
proof (induction "phase_value target - phase_value (phase (self st))" arbitrary: st)
  case 0
  then have "\<not> phase_value (phase (self st)) < phase_value target" by simp
  then have "run_until_phase L w st target = Some (Returned st)"
    by (subst run_until_phase.simps) simp
  with 0 show ?case by simp
next
  case (Suc n)
  then have lt: "phase_value (phase (self st)) < phase_value target" by simp
  show ?case
  proof (cases "handle_phase L w st")
    case (Raised e st1)
    with lt have "run_until_phase L w st target = Some (Raised e st1)"
      by (subst run_until_phase.simps) simp
    with handle_phase_Raised[OF Raised] show ?thesis by simp
  next
    case (Returned st1)
    note adv = handle_phase_Returned[OF Returned]
    with Suc.hyps(2) have "n = phase_value target - phase_value (phase (self st1))" by simp
    from Suc.hyps(1)[OF this] obtain r where
      r: "run_until_phase L w st1 target = Some r"
        "phase_value (phase (self st1)) \<le> phase_value (phase (self (state_of r)))"
        "\<forall>st'. r = Returned st' \<longrightarrow> phase_value target \<le> phase_value (phase (self st'))"
      by blast
    from lt Returned r(1) have "run_until_phase L w st target = Some r"
      by (subst run_until_phase.simps) simp
    with r adv show ?thesis by simp
  qed
qed

text \<open>
  C8. Each handler that returns has set the phase to the successor of the phase it is
  named after, so the handler that \<^verbatim>\<open>run_until_phase\<close> selects by the name of the current
  phase advances the phase by exactly one; a handler that raises leaves the phase as it
  was. \<^verbatim>\<open>run_until_phase\<close> always ends, never with a smaller phase than it started
  from, and when it returns the phase has reached the target; it calls no handler when
  the phase is not below the target.
\<close>

theorem phase_never_decreases:
  "(handle_uninitialized_phase L w st = Returned st' \<longrightarrow> phase (self st') = key_distribution) \<and>
   (handle_key_distribution_phase L w st = Returned st' \<longrightarrow> phase (self st') = key_verification) \<and>
   (handle_key_verification_phase L w st = Returned st' \<longrightarrow> phase (self st') = key_check) \<and>
   (handle_key_check_phase L w st = Returned st' \<longrightarrow> phase (self st') = key_generation) \<and>
   (handle_key_generation_phase L w st = Returned st' \<longrightarrow> phase (self st') = key_publication) \<and>
   (handle_key_publication_phase L w st = Returned st' \<longrightarrow> phase (self st') = complete) \<and>
   (handle_phase L w st = Returned st' \<longrightarrow>
      phase_value (phase (self st')) = Suc (phase_value (phase (self st)))) \<and>
   (handle_phase L w st = Raised e st' \<longrightarrow> phase (self st') = phase (self st)) \<and>
   (\<exists>r. run_until_phase L w st target_phase = Some r \<and>
      phase_value (phase (self st)) \<le> phase_value (phase (self (state_of r))) \<and>
      (\<forall>st''. r = Returned st'' \<longrightarrow>
         phase_value target_phase \<le> phase_value (phase (self st'')))) \<and>
   (\<not> phase_value (phase (self st)) < phase_value target_phase \<longrightarrow>
      run_until_phase L w st target_phase = Some (Returned st))"
proof -
  have "\<not> phase_value (phase (self st)) < phase_value target_phase \<longrightarrow>
      run_until_phase L w st target_phase = Some (Returned st)"
    by (subst run_until_phase.simps) simp
  with run_until_phase_total[of L w st target_phase]
    handle_phase_Returned[of L w st st'] handle_phase_Raised[of L w st e st']
    handler_phase_sets(1,3,5,7,9,11)[of L w st st']
  show ?thesis by blast
qed

theorem phase_never_decreases_witness:
  "(\<exists>st'. handle_uninitialized_phase example_library four_peers fresh_state = Returned st' \<and>
      handle_phase example_library four_peers fresh_state = Returned st' \<and>
      phase (self st') = key_distribution \<and>
      phase_value (phase (self st')) = Suc (phase_value (phase (self fresh_state)))) \<and>
   handle_phase example_library four_peers
       (fresh_state\<lparr>self := fresh_session\<lparr>phase := complete\<rparr>\<rparr>) =
     Raised AttributeError (fresh_state\<lparr>self := fresh_session\<lparr>phase := complete\<rparr>\<rparr>) \<and>
   phase (self (fresh_state\<lparr>self := fresh_session\<lparr>phase := complete\<rparr>\<rparr>)) = complete \<and>
   (\<exists>r. run_until_phase example_library four_peers fresh_state key_distribution = Some r \<and>
      phase_value (phase (self fresh_state)) \<le> phase_value (phase (self (state_of r))) \<and>
      list_all (\<lambda>r'. phase_value key_distribution \<le> phase_value (phase (self (state_of r'))))
        (case r of Returned st'' \<Rightarrow> [r] | Raised e st'' \<Rightarrow> [])) \<and>
   \<not> phase_value (phase (self fresh_state)) < phase_value uninitialized \<and>
   run_until_phase example_library four_peers fresh_state uninitialized =
     Some (Returned fresh_state)"
proof -
  let ?done = "fresh_state\<lparr>self := fresh_session\<lparr>phase := complete\<rparr>\<rparr>"
  have "distinct (map p_eth_address (participants (self fresh_state)))"
    by (simp add: fresh_state_def fresh_session_def)
  from handle_uninitialized_returns[OF this] obtain st' where
    r: "handle_uninitialized_phase example_library four_peers fresh_state = Returned st'"
    by blast
  have ph: "phase (self fresh_state) = uninitialized"
    by (simp add: fresh_state_def fresh_session_def)
  then have hp: "handle_phase example_library four_peers fresh_state = Returned st'"
    using r by (simp add: handle_phase_def)
  have raised: "handle_phase example_library four_peers ?done = Raised AttributeError ?done"
    by (simp add: handle_phase_def)
  have nlt: "\<not> phase_value (phase (self fresh_state)) < phase_value uninitialized"
    by simp
  note t1 = phase_never_decreases[of example_library four_peers fresh_state st'
      AttributeError key_distribution]
  note t2 = phase_never_decreases[of example_library four_peers ?done ?done
      AttributeError uninitialized]
  note t3 = phase_never_decreases[of example_library four_peers fresh_state st'
      AttributeError uninitialized]
  from t1 r hp have a: "phase (self st') = key_distribution \<and>
      phase_value (phase (self st')) = Suc (phase_value (phase (self fresh_state)))"
    by blast
  from t2 raised have b: "phase (self ?done) = phase (self ?done)"
    by blast
  from t1 obtain res where res:
    "run_until_phase example_library four_peers fresh_state key_distribution = Some res"
    "phase_value (phase (self fresh_state)) \<le> phase_value (phase (self (state_of res)))"
    "\<forall>st''. res = Returned st'' \<longrightarrow>
         phase_value key_distribution \<le> phase_value (phase (self st''))"
    by blast
  from res(3) have "list_all (\<lambda>r'. phase_value key_distribution \<le>
          phase_value (phase (self (state_of r'))))
        (case res of Returned st'' \<Rightarrow> [res] | Raised e st'' \<Rightarrow> [])"
    by (cases res) simp_all
  with res(1,2) have c: "\<exists>r. run_until_phase example_library four_peers fresh_state
        key_distribution = Some r \<and>
      phase_value (phase (self fresh_state)) \<le> phase_value (phase (self (state_of r))) \<and>
      list_all (\<lambda>r'. phase_value key_distribution \<le> phase_value (phase (self (state_of r'))))
        (case r of Returned st'' \<Rightarrow> [r] | Raised e st'' \<Rightarrow> [])"
    by blast
  from t3 nlt have d: "run_until_phase example_library four_peers fresh_state uninitialized =
     Some (Returned fresh_state)"
    by blast
  have e: "phase (self ?done) = complete" by simp
  from r hp a have "\<exists>st'. handle_uninitialized_phase example_library four_peers fresh_state =
        Returned st' \<and>
      handle_phase example_library four_peers fresh_state = Returned st' \<and>
      phase (self st') = key_distribution \<and>
      phase_value (phase (self st')) = Suc (phase_value (phase (self fresh_state)))"
    by blast
  with raised e c nlt d show ?thesis
    by (intro conjI)
qed

subsection \<open>Missing key parts\<close>

lemma for_participants_raises_iff:
  "fst (for_participants body ps) = Some e \<longleftrightarrow>
     (\<exists>ps1 p ps2. ps = ps1 @ p # ps2 \<and> (\<forall>q \<in> set ps1. \<exists>q'. body q = Inr q') \<and>
        body p = Inl e)"
proof (induction ps)
  case Nil
  then show ?case by simp
next
  case (Cons a ps)
  show ?case
  proof (cases "body a")
    case (Inl e')
    have "(\<exists>ps1 p ps2. a # ps = ps1 @ p # ps2 \<and> (\<forall>q \<in> set ps1. \<exists>q'. body q = Inr q') \<and>
        body p = Inl e) \<longleftrightarrow> e' = e"
    proof
      assume "\<exists>ps1 p ps2. a # ps = ps1 @ p # ps2 \<and> (\<forall>q \<in> set ps1. \<exists>q'. body q = Inr q') \<and>
        body p = Inl e"
      then obtain ps1 p ps2 where h: "a # ps = ps1 @ p # ps2"
        "\<forall>q \<in> set ps1. \<exists>q'. body q = Inr q'" "body p = Inl e"
        by blast
      show "e' = e"
      proof (cases ps1)
        case Nil
        with h Inl show ?thesis by simp
      next
        case (Cons b bs)
        with h(1) have "b = a" by simp
        with Cons h(2) Inl show ?thesis by simp
      qed
    next
      assume "e' = e"
      with Inl have "a # ps = [] @ a # ps \<and> (\<forall>q \<in> set []. \<exists>q'. body q = Inr q') \<and>
        body a = Inl e"
        by simp
      then show "\<exists>ps1 p ps2. a # ps = ps1 @ p # ps2 \<and>
        (\<forall>q \<in> set ps1. \<exists>q'. body q = Inr q') \<and> body p = Inl e"
        by blast
    qed
    with Inl show ?thesis by simp
  next
    case (Inr a')
    have "(\<exists>ps1 p ps2. a # ps = ps1 @ p # ps2 \<and> (\<forall>q \<in> set ps1. \<exists>q'. body q = Inr q') \<and>
        body p = Inl e) \<longleftrightarrow>
      (\<exists>ps1 p ps2. ps = ps1 @ p # ps2 \<and> (\<forall>q \<in> set ps1. \<exists>q'. body q = Inr q') \<and>
        body p = Inl e)"
    proof
      assume "\<exists>ps1 p ps2. a # ps = ps1 @ p # ps2 \<and> (\<forall>q \<in> set ps1. \<exists>q'. body q = Inr q') \<and>
        body p = Inl e"
      then obtain ps1 p ps2 where h: "a # ps = ps1 @ p # ps2"
        "\<forall>q \<in> set ps1. \<exists>q'. body q = Inr q'" "body p = Inl e"
        by blast
      show "\<exists>ps1 p ps2. ps = ps1 @ p # ps2 \<and> (\<forall>q \<in> set ps1. \<exists>q'. body q = Inr q') \<and>
        body p = Inl e"
      proof (cases ps1)
        case Nil
        with h Inr show ?thesis by simp
      next
        case (Cons b bs)
        with h have "ps = bs @ p # ps2 \<and> (\<forall>q \<in> set bs. \<exists>q'. body q = Inr q') \<and>
          body p = Inl e"
          by simp
        then show ?thesis by blast
      qed
    next
      assume "\<exists>ps1 p ps2. ps = ps1 @ p # ps2 \<and> (\<forall>q \<in> set ps1. \<exists>q'. body q = Inr q') \<and>
        body p = Inl e"
      then obtain ps1 p ps2 where h: "ps = ps1 @ p # ps2"
        "\<forall>q \<in> set ps1. \<exists>q'. body q = Inr q'" "body p = Inl e"
        by blast
      with Inr have "a # ps = (a # ps1) @ p # ps2 \<and>
        (\<forall>q \<in> set (a # ps1). \<exists>q'. body q = Inr q') \<and> body p = Inl e"
        by simp
      then show "\<exists>ps1 p ps2. a # ps = ps1 @ p # ps2 \<and>
        (\<forall>q \<in> set ps1. \<exists>q'. body q = Inr q') \<and> body p = Inl e"
        by blast
    qed
    moreover have "fst (for_participants body (a # ps)) = fst (for_participants body ps)"
      using Inr by (cases "for_participants body ps") simp
    ultimately show ?thesis
      using Cons.IH by (simp only:)
  qed
qed

lemma py_int16_raises: "py_int16 s = Inl e \<Longrightarrow> e = ValueError"
  by (auto simp: py_int16_def split: prod.splits option.splits)

lemma parse_point_raises: "parse_point s = Inl e \<Longrightarrow> e = ValueError"
  by (auto simp: parse_point_def split: sum.splits dest: py_int16_raises)

lemma store_encryption_key_part_cases:
  "store_encryption_key_part w p = Inl ProtocolError \<longleftrightarrow>
     encryption_key_parts w (p_eth_address p) = None"
  "(\<exists>p'. store_encryption_key_part w p = Inr p') \<longleftrightarrow>
     (\<exists>s pt. encryption_key_parts w (p_eth_address p) = Some s \<and> parse_point s = Inr pt)"
  by (auto simp: store_encryption_key_part_def split: option.splits sum.splits
      dest: parse_point_raises)

lemma store_decryption_key_part_cases:
  "store_decryption_key_part w p = Inl ProtocolError \<longleftrightarrow>
     dec_key_parts w (p_eth_address p) = None"
  "(\<exists>p'. store_decryption_key_part w p = Inr p') \<longleftrightarrow>
     (\<exists>s v. dec_key_parts w (p_eth_address p) = Some s \<and> py_int16 s = Inr v)"
  by (auto simp: store_decryption_key_part_def split: option.splits sum.splits
      dest: py_int16_raises)

lemma reduce_add_from_no_ProtocolError: "reduce_add_from L acc xs \<noteq> Inl ProtocolError"
  by (induction L acc xs rule: reduce_add_from.induct) (auto split: option.splits)

lemma sum_from_no_ProtocolError: "sum_from acc xs \<noteq> Inl ProtocolError"
  by (induction acc xs rule: sum_from.induct) auto

lemma first_coefficient_no_ProtocolError: "first_coefficient poly \<noteq> Inl ProtocolError"
  by (auto simp: first_coefficient_def split: option.splits list.splits)

lemma key_generation_raises:
  "has_raised (handle_key_generation_phase L w st) = Some ProtocolError \<longleftrightarrow>
     fst (for_participants (store_encryption_key_part w) (participants (self st))) =
       Some ProtocolError"
  using reduce_add_from_no_ProtocolError
  by (auto simp: handle_key_generation_phase_def split: prod.splits option.splits sum.splits)

lemma key_publication_raises:
  "has_raised (handle_key_publication_phase L w st) = Some ProtocolError \<longleftrightarrow>
     fst (for_participants (store_decryption_key_part w) (participants (self st))) =
       Some ProtocolError"
  using sum_from_no_ProtocolError first_coefficient_no_ProtocolError
  by (auto simp: handle_key_publication_phase_def split: prod.splits option.splits sum.splits)

lemma hex_point_5: "parse_point (hex_point CHR ''5'') = Inr (5, 0)"
  unfolding hex_point_def by code_simp

lemma py_int16_05: "py_int16 ''05'' = Inr 5"
  by code_simp

lemma py_int16_zz: "py_int16 ''zz'' = Inl ValueError"
  by code_simp

lemma parse_point_zz: "parse_point ''zz'' = Inl ValueError"
  by code_simp

lemma py_int16_separator: "py_int16 separator_value = Inl ValueError"
  unfolding separator_value_def by code_simp

lemma parse_point_separator: "parse_point separator_point = Inl ValueError"
  unfolding separator_point_def by code_simp

lemma py_int16_nbsp: "py_int16 nbsp_value = Inr 5"
  unfolding nbsp_value_def by code_simp

lemma missing_after_parsed:
  assumes "\<forall>q \<in> set ps. \<forall>s. reply (p_eth_address q) = Some s \<longrightarrow> (\<exists>v. parse s = Inr v)"
  shows "(\<exists>ps1 p ps2. ps = ps1 @ p # ps2 \<and> reply (p_eth_address p) = None \<and>
            (\<forall>q \<in> set ps1. \<exists>s v. reply (p_eth_address q) = Some s \<and> parse s = Inr v)) \<longleftrightarrow>
         (\<exists>p \<in> set ps. reply (p_eth_address p) = None)"
proof
  assume "\<exists>ps1 p ps2. ps = ps1 @ p # ps2 \<and> reply (p_eth_address p) = None \<and>
            (\<forall>q \<in> set ps1. \<exists>s v. reply (p_eth_address q) = Some s \<and> parse s = Inr v)"
  then show "\<exists>p \<in> set ps. reply (p_eth_address p) = None" by auto
next
  assume "\<exists>p \<in> set ps. reply (p_eth_address p) = None"
  from split_list_first_prop[OF this] obtain ps1 p ps2 where
    s: "ps = ps1 @ p # ps2" "reply (p_eth_address p) = None"
      "\<forall>q \<in> set ps1. reply (p_eth_address q) \<noteq> None"
    by blast
  have "\<exists>s v. reply (p_eth_address q) = Some s \<and> parse s = Inr v" if "q \<in> set ps1" for q
  proof -
    from that s(3) obtain s' where "reply (p_eth_address q) = Some s'" by auto
    moreover from that s(1) have "q \<in> set ps" by simp
    ultimately show ?thesis using assms by blast
  qed
  with s(1,2) show "\<exists>ps1 p ps2. ps = ps1 @ p # ps2 \<and> reply (p_eth_address p) = None \<and>
            (\<forall>q \<in> set ps1. \<exists>s v. reply (p_eth_address q) = Some s \<and> parse s = Inr v)"
    by blast
qed

lemma key_generation_ProtocolError_iff:
  "has_raised (handle_key_generation_phase L w st) = Some ProtocolError \<longleftrightarrow>
      (\<exists>ps1 p ps2. participants (self st) = ps1 @ p # ps2 \<and>
         encryption_key_parts w (p_eth_address p) = None \<and>
         (\<forall>q \<in> set ps1. \<exists>s pt. encryption_key_parts w (p_eth_address q) = Some s \<and>
            parse_point s = Inr pt))"
  unfolding key_generation_raises for_participants_raises_iff
    store_encryption_key_part_cases by blast

lemma key_publication_ProtocolError_iff:
  "has_raised (handle_key_publication_phase L w st) = Some ProtocolError \<longleftrightarrow>
      (\<exists>ps1 p ps2. participants (self st) = ps1 @ p # ps2 \<and>
         dec_key_parts w (p_eth_address p) = None \<and>
         (\<forall>q \<in> set ps1. \<exists>s v. dec_key_parts w (p_eth_address q) = Some s \<and>
            py_int16 s = Inr v))"
  unfolding key_publication_raises for_participants_raises_iff
    store_decryption_key_part_cases by blast

text \<open>
  C4 (as amended). The KeyGeneration handler raises \<^verbatim>\<open>ProtocolError\<close> exactly when some
  participant's \<^verbatim>\<open>encryption_key_part\<close> response is missing and the responses of all
  participants before it, in the order of \<^verbatim>\<open>self.participants\<close>, are present and parse;
  when every delivered response parses, that is exactly when some response is missing.
  The same holds for the KeyPublication handler and the \<^verbatim>\<open>decryption_key_part\<close>
  responses. Whenever either handler raises, the phase is the one it was called with.
\<close>

theorem protocol_error_on_first_missing_part:
  "(has_raised (handle_key_generation_phase L w st) = Some ProtocolError \<longleftrightarrow>
      (\<exists>ps1 p ps2. participants (self st) = ps1 @ p # ps2 \<and>
         encryption_key_parts w (p_eth_address p) = None \<and>
         (\<forall>q \<in> set ps1. \<exists>s pt. encryption_key_parts w (p_eth_address q) = Some s \<and>
            parse_point s = Inr pt))) \<and>
   (has_raised (handle_key_publication_phase L w st) = Some ProtocolError \<longleftrightarrow>
      (\<exists>ps1 p ps2. participants (self st) = ps1 @ p # ps2 \<and>
         dec_key_parts w (p_eth_address p) = None \<and>
         (\<forall>q \<in> set ps1. \<exists>s v. dec_key_parts w (p_eth_address q) = Some s \<and>
            py_int16 s = Inr v))) \<and>
   ((\<forall>q \<in> set (participants (self st)). \<forall>s. encryption_key_parts w (p_eth_address q) = Some s \<longrightarrow>
        (\<exists>pt. parse_point s = Inr pt)) \<longrightarrow>
      (has_raised (handle_key_generation_phase L w st) = Some ProtocolError \<longleftrightarrow>
         (\<exists>p \<in> set (participants (self st)).
            encryption_key_parts w (p_eth_address p) = None))) \<and>
   ((\<forall>q \<in> set (participants (self st)). \<forall>s. dec_key_parts w (p_eth_address q) = Some s \<longrightarrow>
        (\<exists>v. py_int16 s = Inr v)) \<longrightarrow>
      (has_raised (handle_key_publication_phase L w st) = Some ProtocolError \<longleftrightarrow>
         (\<exists>p \<in> set (participants (self st)). dec_key_parts w (p_eth_address p) = None))) \<and>
   (handle_key_generation_phase L w st = Raised e st' \<longrightarrow> phase (self st') = phase (self st)) \<and>
   (handle_key_publication_phase L w st = Raised e st' \<longrightarrow> phase (self st') = phase (self st))"
proof (intro conjI impI)
  show "has_raised (handle_key_generation_phase L w st) = Some ProtocolError \<longleftrightarrow>
      (\<exists>ps1 p ps2. participants (self st) = ps1 @ p # ps2 \<and>
         encryption_key_parts w (p_eth_address p) = None \<and>
         (\<forall>q \<in> set ps1. \<exists>s pt. encryption_key_parts w (p_eth_address q) = Some s \<and>
            parse_point s = Inr pt))"
    by (rule key_generation_ProtocolError_iff)
  show "has_raised (handle_key_publication_phase L w st) = Some ProtocolError \<longleftrightarrow>
      (\<exists>ps1 p ps2. participants (self st) = ps1 @ p # ps2 \<and>
         dec_key_parts w (p_eth_address p) = None \<and>
         (\<forall>q \<in> set ps1. \<exists>s v. dec_key_parts w (p_eth_address q) = Some s \<and>
            py_int16 s = Inr v))"
    by (rule key_publication_ProtocolError_iff)
next
  assume "\<forall>q \<in> set (participants (self st)). \<forall>s.
    encryption_key_parts w (p_eth_address q) = Some s \<longrightarrow> (\<exists>pt. parse_point s = Inr pt)"
  from missing_after_parsed[of "participants (self st)" "encryption_key_parts w" parse_point,
      OF this]
  show "has_raised (handle_key_generation_phase L w st) = Some ProtocolError \<longleftrightarrow>
         (\<exists>p \<in> set (participants (self st)). encryption_key_parts w (p_eth_address p) = None)"
    unfolding key_generation_ProtocolError_iff .
next
  assume "\<forall>q \<in> set (participants (self st)). \<forall>s.
    dec_key_parts w (p_eth_address q) = Some s \<longrightarrow> (\<exists>v. py_int16 s = Inr v)"
  from missing_after_parsed[of "participants (self st)" "dec_key_parts w" py_int16, OF this]
  show "has_raised (handle_key_publication_phase L w st) = Some ProtocolError \<longleftrightarrow>
         (\<exists>p \<in> set (participants (self st)). dec_key_parts w (p_eth_address p) = None)"
    unfolding key_publication_ProtocolError_iff .
next
  assume "handle_key_generation_phase L w st = Raised e st'"
  then show "phase (self st') = phase (self st)"
    by (rule handle_key_generation_phase_sets(2))
next
  assume "handle_key_publication_phase L w st = Raised e st'"
  then show "phase (self st') = phase (self st)"
    by (rule handle_key_publication_phase_sets(2))
qed

text \<open>
  A reply that begins with the separator 28 does not parse either: with such replies from
  \<open>0xb0b\<close> and none from \<open>0xca7\<close>, both handlers raise \<^verbatim>\<open>ValueError\<close>.
\<close>

lemma generation_separator:
  "handle_key_generation_phase example_library (only_b_answers separator_point separator_value)
     (two_peer_state key_generation) = Raised ValueError (two_peer_state key_generation)"
  by (simp add: handle_key_generation_phase_def only_b_answers_def two_peer_state_def
      store_encryption_key_part_def example_peer_def parse_point_separator)

lemma publication_separator:
  "handle_key_publication_phase example_library (only_b_answers separator_point separator_value)
     (two_peer_state key_publication) = Raised ValueError (two_peer_state key_publication)"
  by (simp add: handle_key_publication_phase_def only_b_answers_def two_peer_state_def
      store_decryption_key_part_def example_peer_def py_int16_separator)

lemma generation_zz:
  "handle_key_generation_phase example_library (only_b_answers ''zz'' ''zz'')
     (two_peer_state key_generation) = Raised ValueError (two_peer_state key_generation)"
  by (simp add: handle_key_generation_phase_def only_b_answers_def two_peer_state_def
      store_encryption_key_part_def example_peer_def parse_point_zz)

lemma publication_zz:
  "handle_key_publication_phase example_library (only_b_answers ''zz'' ''zz'')
     (two_peer_state key_publication) = Raised ValueError (two_peer_state key_publication)"
  by (simp add: handle_key_publication_phase_def only_b_answers_def two_peer_state_def
      store_decryption_key_part_def example_peer_def py_int16_zz)

text \<open>
  C4 as stated fails: the peer \<open>0xb0b\<close> answers \<^verbatim>\<open>zz\<close>, the peer \<open>0xca7\<close> does not
  answer. A response is missing, and both handlers raise \<^verbatim>\<open>ValueError\<close> from \<^verbatim>\<open>int\<close>,
  not \<^verbatim>\<open>ProtocolError\<close>.
\<close>

theorem protocol_error_iff_missing_counterexample:
  "\<not> (has_raised (handle_key_generation_phase example_library (only_b_answers ''zz'' ''zz'')
           (two_peer_state key_generation)) = Some ProtocolError \<longleftrightarrow>
        (\<exists>p \<in> set (participants (self (two_peer_state key_generation))).
           encryption_key_parts (only_b_answers ''zz'' ''zz'') (p_eth_address p) = None)) \<and>
   \<not> (has_raised (handle_key_publication_phase example_library (only_b_answers ''zz'' ''zz'')
           (two_peer_state key_publication)) = Some ProtocolError \<longleftrightarrow>
        (\<exists>p \<in> set (participants (self (two_peer_state key_publication))).
           dec_key_parts (only_b_answers ''zz'' ''zz'') (p_eth_address p) = None))"
proof -
  have "\<exists>p \<in> set (participants (self (two_peer_state key_generation))).
           encryption_key_parts (only_b_answers ''zz'' ''zz'') (p_eth_address p) = None"
    by (simp add: two_peer_state_def only_b_answers_def example_peer_def)
  moreover have "\<exists>p \<in> set (participants (self (two_peer_state key_publication))).
           dec_key_parts (only_b_answers ''zz'' ''zz'') (p_eth_address p) = None"
    by (simp add: two_peer_state_def only_b_answers_def example_peer_def)
  ultimately show ?thesis
    by (simp only: generation_zz publication_zz has_raised.simps) simp
qed

theorem protocol_error_on_first_missing_part_witness:
  "participants (self (two_peer_state key_generation)) =
     [] @ example_peer 1 0xb0b # [example_peer 2 0xca7] \<and>
   list_all (\<lambda>q. \<exists>s. encryption_key_parts (only_b_answers (hex_point CHR ''5'') ''05'')
                       (p_eth_address q) = Some s \<and> (\<exists>pt. parse_point s = Inr pt))
     [example_peer 1 0xb0b] \<and>
   encryption_key_parts (only_b_answers (hex_point CHR ''5'') ''05'') 0xca7 = None \<and>
   (\<exists>st'. handle_key_generation_phase example_library (only_b_answers (hex_point CHR ''5'') ''05'')
        (two_peer_state key_generation) = Raised ProtocolError st' \<and>
      phase (self st') = key_generation) \<and>
   (\<exists>st'. handle_key_publication_phase example_library (only_b_answers (hex_point CHR ''5'') ''05'')
        (two_peer_state key_publication) = Raised ProtocolError st' \<and>
      phase (self st') = key_publication)"
proof -
  let ?w = "only_b_answers (hex_point CHR ''5'') ''05''"
  let ?g = "two_peer_state key_generation" and ?p = "two_peer_state key_publication"
  have ps: "participants (self (two_peer_state ph)) =
      [example_peer 1 0xb0b] @ example_peer 2 0xca7 # []" for ph
    by (simp add: two_peer_state_def)
  have b: "encryption_key_parts ?w (p_eth_address (example_peer 1 0xb0b)) =
        Some (hex_point CHR ''5'')"
      "dec_key_parts ?w (p_eth_address (example_peer 1 0xb0b)) = Some ''05''"
    and c: "encryption_key_parts ?w (p_eth_address (example_peer 2 0xca7)) = None"
      "dec_key_parts ?w (p_eth_address (example_peer 2 0xca7)) = None"
    by (simp_all add: only_b_answers_def example_peer_def)
  have all_e: "\<forall>q \<in> set (participants (self ?g)). \<forall>s.
      encryption_key_parts ?w (p_eth_address q) = Some s \<longrightarrow> (\<exists>pt. parse_point s = Inr pt)"
    unfolding ps using b c hex_point_5 by simp
  have all_d: "\<forall>q \<in> set (participants (self ?p)). \<forall>s.
      dec_key_parts ?w (p_eth_address q) = Some s \<longrightarrow> (\<exists>v. py_int16 s = Inr v)"
    unfolding ps using b c py_int16_05 by simp
  have miss_e: "\<exists>p \<in> set (participants (self ?g)). encryption_key_parts ?w (p_eth_address p) = None"
    unfolding ps using c by simp
  have miss_d: "\<exists>p \<in> set (participants (self ?p)). dec_key_parts ?w (p_eth_address p) = None"
    unfolding ps using c by simp
  from protocol_error_on_first_missing_part[of example_library ?w ?g] all_e miss_e
  have "has_raised (handle_key_generation_phase example_library ?w ?g) = Some ProtocolError"
    by blast
  then obtain sg where sg: "handle_key_generation_phase example_library ?w ?g =
      Raised ProtocolError sg"
    by (cases "handle_key_generation_phase example_library ?w ?g") simp_all
  from protocol_error_on_first_missing_part[of example_library ?w ?g ProtocolError sg] sg
  have g: "phase (self sg) = key_generation"
    by (simp add: two_peer_state_def)
  from protocol_error_on_first_missing_part[of example_library ?w ?p] all_d miss_d
  have "has_raised (handle_key_publication_phase example_library ?w ?p) = Some ProtocolError"
    by blast
  then obtain sp where sp: "handle_key_publication_phase example_library ?w ?p =
      Raised ProtocolError sp"
    by (cases "handle_key_publication_phase example_library ?w ?p") simp_all
  from protocol_error_on_first_missing_part[of example_library ?w ?p ProtocolError sp] sp
  have p: "phase (self sp) = key_publication"
    by (simp add: two_peer_state_def)
  have l: "list_all (\<lambda>q. \<exists>s. encryption_key_parts ?w (p_eth_address q) = Some s \<and>
      (\<exists>pt. parse_point s = Inr pt)) [example_peer 1 0xb0b]"
    using b hex_point_5 by simp
  have e: "encryption_key_parts ?w 0xca7 = None"
    by (simp add: only_b_answers_def)
  from sg g have eg: "\<exists>st'. handle_key_generation_phase example_library ?w ?g =
      Raised ProtocolError st' \<and> phase (self st') = key_generation"
    by blast
  from sp p have ep: "\<exists>st'. handle_key_publication_phase example_library ?w ?p =
      Raised ProtocolError st' \<and> phase (self st') = key_publication"
    by blast
  have ps0: "participants (self ?g) = [] @ example_peer 1 0xb0b # [example_peer 2 0xca7]"
    by (simp add: two_peer_state_def)
  from ps0 l e eg ep show ?thesis by (intro conjI)
qed

subsection \<open>The KeyDistribution handler\<close>

lemma for_participants_None:
  "for_participants body ps = (None, ps') \<Longrightarrow>
     length ps' = length ps \<and> (\<forall>i < length ps. body (ps ! i) = Inr (ps' ! i))"
proof (induction ps arbitrary: ps')
  case Nil
  then show ?case by simp
next
  case (Cons a ps)
  from Cons.prems obtain a' where a: "body a = Inr a'"
    by (cases "body a") auto
  obtain r qs where q: "for_participants body ps = (r, qs)"
    by (cases "for_participants body ps")
  with Cons.prems a have r: "r = None" and ps': "ps' = a' # qs" by auto
  from Cons.IH[of qs] q r have ih: "length qs = length ps"
    "\<forall>i < length ps. body (ps ! i) = Inr (qs ! i)"
    by auto
  show ?case
  proof (intro conjI allI impI)
    show "length ps' = length (a # ps)" using ps' ih(1) by simp
  next
    fix i assume "i < length (a # ps)"
    then show "body ((a # ps) ! i) = Inr (ps' ! i)"
      using a ps' ih(2) by (cases i) simp_all
  qed
qed

lemma for_participants_returns:
  "(\<forall>p \<in> set ps. \<exists>p'. body p = Inr p') \<Longrightarrow> \<exists>ps'. for_participants body ps = (None, ps')"
proof (induction ps)
  case Nil
  then show ?case by simp
next
  case (Cons a ps)
  then obtain a' qs where "body a = Inr a'" "for_participants body ps = (None, qs)"
    by auto
  then show ?case by simp
qed

lemma handle_key_distribution_Returned:
  assumes "handle_key_distribution_phase L w st = Returned st'"
  shows "\<exists>ps1. for_participants (store_signed_shares L w (decryption_condition (self st)))
             (participants (self st)) = (None, ps1) \<and>
           for_participants (store_verification_points w) ps1 =
             (None, participants (self st'))"
  using assms
  by (auto simp: handle_key_distribution_phase_def split: prod.splits option.splits)

lemma store_verification_points_Inr:
  assumes "store_verification_points w p = Inr p'"
  shows "share_fields p' = share_fields p" and "p_eth_address p' = p_eth_address p"
    and "case verification_points_reply w (p_eth_address p) of
           None \<Rightarrow> p_verification_points p' = p_verification_points p
         | Some ptstrs \<Rightarrow>
             map_raise parse_point ptstrs = Inr (the (p_verification_points p')) \<and>
             p_verification_points p' \<noteq> None"
  using assms
  by (auto simp: store_verification_points_def share_fields_def
      split: option.splits sum.splits)

lemma store_signed_shares_Inr:
  assumes "store_signed_shares L w cond p = Inr p'"
  shows "p_eth_address p' = p_eth_address p"
    and "p_verification_points p' = p_verification_points p"
    and "case signed_secret_shares w (p_eth_address p) of
           None \<Rightarrow> share_fields p' = share_fields p
         | Some ((share1, share2), sig) \<Rightarrow>
             (case recover_share_signer L w cond share1 share2 sig of
                Inl e \<Rightarrow> e = ValueError \<and> share_fields p' = share_fields p
              | Inr a \<Rightarrow>
                  if a \<noteq> p_eth_address p then share_fields p' = share_fields p
                  else share_fields p' = (Some share1, Some share2, Some sig))"
  using assms
  by (auto simp: store_signed_shares_def share_fields_def
      split: option.splits sum.splits prod.splits if_splits)

lemma key_distribution_participant:
  assumes r: "handle_key_distribution_phase L w st = Returned st'"
    and i: "i < length (participants (self st))"
  shows "\<exists>p1. store_signed_shares L w (decryption_condition (self st))
            (participants (self st) ! i) = Inr p1 \<and>
          store_verification_points w p1 = Inr (participants (self st') ! i)"
    and "length (participants (self st')) = length (participants (self st))"
proof -
  from handle_key_distribution_Returned[OF r] obtain ps1 where
    a: "for_participants (store_signed_shares L w (decryption_condition (self st)))
             (participants (self st)) = (None, ps1)"
    and b: "for_participants (store_verification_points w) ps1 =
             (None, participants (self st'))"
    by blast
  note a' = for_participants_None[OF a] and b' = for_participants_None[OF b]
  from a' b' show "length (participants (self st')) = length (participants (self st))"
    by simp
  from a' b' i show "\<exists>p1. store_signed_shares L w (decryption_condition (self st))
            (participants (self st) ! i) = Inr p1 \<and>
          store_verification_points w p1 = Inr (participants (self st') ! i)"
    by auto
qed

lemma handle_key_distribution_returns:
  assumes s: "\<forall>p \<in> set (participants (self st)).
      \<exists>p'. store_signed_shares L w (decryption_condition (self st)) p = Inr p'"
    and v: "\<forall>p \<in> set (participants (self st)). \<forall>ptstrs.
      verification_points_reply w (p_eth_address p) = Some ptstrs \<longrightarrow>
      (\<exists>pts. map_raise parse_point ptstrs = Inr pts)"
  shows "\<exists>st'. handle_key_distribution_phase L w st = Returned st'"
proof -
  from for_participants_returns[OF s] obtain ps1 where
    a: "for_participants (store_signed_shares L w (decryption_condition (self st)))
             (participants (self st)) = (None, ps1)"
    by blast
  note a' = for_participants_None[OF a]
  have "\<exists>p'. store_verification_points w p1 = Inr p'" if "p1 \<in> set ps1" for p1
  proof -
    from that obtain i where i: "i < length ps1" "ps1 ! i = p1"
      by (auto simp: in_set_conv_nth)
    with a' have st: "store_signed_shares L w (decryption_condition (self st))
        (participants (self st) ! i) = Inr p1"
      and mem: "participants (self st) ! i \<in> set (participants (self st))"
      by auto
    from store_signed_shares_Inr(1)[OF st]
    have "p_eth_address p1 = p_eth_address (participants (self st) ! i)" .
    with v mem show ?thesis
      by (auto simp: store_verification_points_def split: option.splits sum.splits)
  qed
  then have "\<forall>p \<in> set ps1. \<exists>p'. store_verification_points w p = Inr p'" by blast
  from for_participants_returns[OF this] obtain ps2 where
    "for_participants (store_verification_points w) ps1 = (None, ps2)"
    by blast
  with a show ?thesis
    by (simp add: handle_key_distribution_phase_def)
qed

lemma recover_share_signer_message:
  assumes "address_to_bytes L (own_address w) = Inr a"
    and "private_value_to_bytes L share1 = Inr b1"
    and "private_value_to_bytes L share2 = Inr b2"
  shows "recover_share_signer L w cond share1 share2 sig =
     address_from_message_and_signature L (cond @ a @ ''SECRETSHARES'' @ b1 @ b2) sig"
  using assms by (simp add: recover_share_signer_def secret_shares_msg_bytes_def)

lemma store_signed_shares_returns:
  assumes "\<forall>share1 share2 sig e.
      signed_secret_shares w (p_eth_address p) = Some ((share1, share2), sig) \<longrightarrow>
      recover_share_signer L w cond share1 share2 sig = Inl e \<longrightarrow> e = ValueError"
  shows "\<exists>p'. store_signed_shares L w cond p = Inr p'"
  using assms
  by (auto simp: store_signed_shares_def split: option.splits sum.splits prod.splits)

text \<open>
  C7. When the KeyDistribution handler returns, a participant whose signed-shares
  response is missing keeps its \<^verbatim>\<open>secret_share1\<close>, \<^verbatim>\<open>secret_share2\<close> and
  \<^verbatim>\<open>shares_signature\<close>; one whose response is present keeps them when building the
  message and recovering the signer raises \<^verbatim>\<open>ValueError\<close> or the recovered address is not
  its own, and otherwise gets the delivered shares and signature. The signer is recovered
  over the decryption condition, the own address, \<^verbatim>\<open>SECRETSHARES\<close> and the two shares, in
  the encodings of \<^verbatim>\<open>util\<close>. The handler returns, in phase KeyVerification, whenever no
  helper raises anything but \<^verbatim>\<open>ValueError\<close> and the delivered verification points
  parse: a missing response is never fatal.
\<close>

theorem signed_shares_stored_or_discarded:
  "(handle_key_distribution_phase L w st = Returned st' \<and>
      i < length (participants (self st)) \<longrightarrow>
      length (participants (self st')) = length (participants (self st)) \<and>
      p_eth_address (participants (self st') ! i) = p_eth_address (participants (self st) ! i) \<and>
      (case signed_secret_shares w (p_eth_address (participants (self st) ! i)) of
         None \<Rightarrow>
           share_fields (participants (self st') ! i) =
             share_fields (participants (self st) ! i)
       | Some ((share1, share2), sig) \<Rightarrow>
           (case recover_share_signer L w (decryption_condition (self st)) share1 share2 sig of
              Inl e \<Rightarrow>
                e = ValueError \<and>
                share_fields (participants (self st') ! i) =
                  share_fields (participants (self st) ! i)
            | Inr recovered_address \<Rightarrow>
                if recovered_address \<noteq> p_eth_address (participants (self st) ! i)
                then share_fields (participants (self st') ! i) =
                       share_fields (participants (self st) ! i)
                else share_fields (participants (self st') ! i) =
                       (Some share1, Some share2, Some sig)))) \<and>
   (address_to_bytes L (own_address w) = Inr a \<and> private_value_to_bytes L s1 = Inr b1 \<and>
      private_value_to_bytes L s2 = Inr b2 \<longrightarrow>
      recover_share_signer L w cond s1 s2 sg =
        address_from_message_and_signature L (cond @ a @ ''SECRETSHARES'' @ b1 @ b2) sg) \<and>
   ((\<forall>p \<in> set (participants (self st)). \<forall>share1 share2 sig e.
        signed_secret_shares w (p_eth_address p) = Some ((share1, share2), sig) \<longrightarrow>
        recover_share_signer L w (decryption_condition (self st)) share1 share2 sig = Inl e \<longrightarrow>
        e = ValueError) \<and>
    (\<forall>p \<in> set (participants (self st)). \<forall>ptstrs.
        verification_points_reply w (p_eth_address p) = Some ptstrs \<longrightarrow>
        (\<exists>pts. map_raise parse_point ptstrs = Inr pts)) \<longrightarrow>
      (\<exists>st''. handle_key_distribution_phase L w st = Returned st'' \<and>
         phase (self st'') = key_verification))"
proof (intro conjI impI)
  assume "handle_key_distribution_phase L w st = Returned st' \<and>
      i < length (participants (self st))"
  then have r: "handle_key_distribution_phase L w st = Returned st'"
    and i: "i < length (participants (self st))"
    by simp_all
  from key_distribution_participant[OF r i] obtain p1 where
    a: "store_signed_shares L w (decryption_condition (self st))
          (participants (self st) ! i) = Inr p1"
    and b: "store_verification_points w p1 = Inr (participants (self st') ! i)"
    and len: "length (participants (self st')) = length (participants (self st))"
    by blast
  show "length (participants (self st')) = length (participants (self st))" by (rule len)
  show "p_eth_address (participants (self st') ! i) =
      p_eth_address (participants (self st) ! i)"
    using store_signed_shares_Inr(1)[OF a] store_verification_points_Inr(2)[OF b] by simp
  show "case signed_secret_shares w (p_eth_address (participants (self st) ! i)) of
         None \<Rightarrow>
           share_fields (participants (self st') ! i) =
             share_fields (participants (self st) ! i)
       | Some ((share1, share2), sig) \<Rightarrow>
           (case recover_share_signer L w (decryption_condition (self st)) share1 share2 sig of
              Inl e \<Rightarrow>
                e = ValueError \<and>
                share_fields (participants (self st') ! i) =
                  share_fields (participants (self st) ! i)
            | Inr recovered_address \<Rightarrow>
                if recovered_address \<noteq> p_eth_address (participants (self st) ! i)
                then share_fields (participants (self st') ! i) =
                       share_fields (participants (self st) ! i)
                else share_fields (participants (self st') ! i) =
                       (Some share1, Some share2, Some sig))"
    using store_signed_shares_Inr(3)[OF a]
    unfolding store_verification_points_Inr(1)[OF b] .
next
  assume "address_to_bytes L (own_address w) = Inr a \<and> private_value_to_bytes L s1 = Inr b1 \<and>
      private_value_to_bytes L s2 = Inr b2"
  then show "recover_share_signer L w cond s1 s2 sg =
        address_from_message_and_signature L (cond @ a @ ''SECRETSHARES'' @ b1 @ b2) sg"
    using recover_share_signer_message by blast
next
  assume h: "(\<forall>p \<in> set (participants (self st)). \<forall>share1 share2 sig e.
        signed_secret_shares w (p_eth_address p) = Some ((share1, share2), sig) \<longrightarrow>
        recover_share_signer L w (decryption_condition (self st)) share1 share2 sig = Inl e \<longrightarrow>
        e = ValueError) \<and>
    (\<forall>p \<in> set (participants (self st)). \<forall>ptstrs.
        verification_points_reply w (p_eth_address p) = Some ptstrs \<longrightarrow>
        (\<exists>pts. map_raise parse_point ptstrs = Inr pts))"
  then have "\<forall>p \<in> set (participants (self st)).
      \<exists>p'. store_signed_shares L w (decryption_condition (self st)) p = Inr p'"
    using store_signed_shares_returns by blast
  from handle_key_distribution_returns[OF this] h obtain st'' where
    "handle_key_distribution_phase L w st = Returned st''"
    by blast
  with handle_key_distribution_phase_sets(1)[OF this]
  show "\<exists>st''. handle_key_distribution_phase L w st = Returned st'' \<and>
         phase (self st'') = key_verification"
    by blast
qed

lemma shares_world_b:
  "recover_share_signer example_library shares_world ''cond'' 11 12 (0xb0b, 100, 27) = Inr 0xb0b"
  by (simp add: recover_share_signer_def secret_shares_msg_bytes_def example_library_def
      shares_world_def example_address_to_bytes_def example_private_value_to_bytes_def
      example_recover_def int_to_bytes_def secp256k1_N_def)

lemma shares_world_c:
  "recover_share_signer example_library shares_world ''cond'' 13 14 (0xca7, 100, 29) =
     Inl ValueError"
  by (simp add: recover_share_signer_def secret_shares_msg_bytes_def example_library_def
      shares_world_def example_address_to_bytes_def example_private_value_to_bytes_def
      example_recover_def int_to_bytes_def secp256k1_N_def)

theorem signed_shares_stored_or_discarded_witness:
  "(\<exists>st'. handle_key_distribution_phase example_library shares_world
        (two_peer_state key_distribution) = Returned st' \<and>
      phase (self st') = key_verification \<and>
      length (participants (self st')) = 2 \<and>
      share_fields (participants (self st') ! 0) =
        (Some 11, Some 12, Some (0xb0b, 100, 27)) \<and>
      share_fields (participants (self st') ! 1) = (None, None, None)) \<and>
   (\<exists>st'. handle_key_distribution_phase example_library (only_b_answers ''05'' ''05'')
        (two_peer_state key_distribution) = Returned st' \<and>
      share_fields (participants (self st') ! 0) = (None, None, None)) \<and>
   recover_share_signer example_library shares_world ''cond'' 11 12 (0xb0b, 100, 27) =
     address_from_message_and_signature example_library
       (''cond'' @ int_to_bytes 20 0xa11ce @ ''SECRETSHARES'' @ int_to_bytes 32 11 @
        int_to_bytes 32 12) (0xb0b, 100, 27)"
proof -
  let ?st = "two_peer_state key_distribution"
  let ?w0 = "only_b_answers ''05'' ''05''"
  have ps: "participants (self ?st) = [example_peer 1 0xb0b, example_peer 2 0xca7]"
    and cond: "decryption_condition (self ?st) = ''cond''"
    by (simp_all add: two_peer_state_def)
  have addr: "p_eth_address (example_peer k x) = x" for k x
    by (simp add: example_peer_def)
  have sss: "signed_secret_shares shares_world 0xb0b = Some ((11, 12), (0xb0b, 100, 27))"
      "signed_secret_shares shares_world 0xca7 = Some ((13, 14), (0xca7, 100, 29))"
      "verification_points_reply shares_world = Map.empty"
    by (simp_all add: shares_world_def)
  have sss0: "signed_secret_shares ?w0 = Map.empty" "verification_points_reply ?w0 = Map.empty"
    by (simp_all add: only_b_answers_def)
  have none: "share_fields (example_peer k x) = (None, None, None)" for k x
    by (simp add: share_fields_def example_peer_def)
  \<comment> \<open>the transport with two deliveries\<close>
  have ok: "(\<forall>p \<in> set (participants (self ?st)). \<forall>share1 share2 sig e.
        signed_secret_shares shares_world (p_eth_address p) = Some ((share1, share2), sig) \<longrightarrow>
        recover_share_signer example_library shares_world (decryption_condition (self ?st))
          share1 share2 sig = Inl e \<longrightarrow> e = ValueError) \<and>
    (\<forall>p \<in> set (participants (self ?st)). \<forall>ptstrs.
        verification_points_reply shares_world (p_eth_address p) = Some ptstrs \<longrightarrow>
        (\<exists>pts. map_raise parse_point ptstrs = Inr pts))"
    unfolding ps cond using sss shares_world_b shares_world_c by (simp add: addr)
  from signed_shares_stored_or_discarded[of example_library shares_world ?st ?st 0
      "[]" 0 "[]" 0 "[]" "[]" "(0, 0, 0)", THEN conjunct2, THEN conjunct2] ok
  obtain st1 where r1: "handle_key_distribution_phase example_library shares_world ?st =
      Returned st1" "phase (self st1) = key_verification"
    by blast
  have i0: "handle_key_distribution_phase example_library shares_world ?st = Returned st1 \<and>
      0 < length (participants (self ?st))"
    and i1: "handle_key_distribution_phase example_library shares_world ?st = Returned st1 \<and>
      1 < length (participants (self ?st))"
    using r1(1) ps by simp_all
  from signed_shares_stored_or_discarded[of example_library shares_world ?st st1 0
      "[]" 0 "[]" 0 "[]" "[]" "(0, 0, 0)", THEN conjunct1] i0
  have f0: "length (participants (self st1)) = 2 \<and>
      share_fields (participants (self st1) ! 0) = (Some 11, Some 12, Some (0xb0b, 100, 27))"
    unfolding ps cond by (simp add: addr sss shares_world_b)
  from signed_shares_stored_or_discarded[of example_library shares_world ?st st1 1
      "[]" 0 "[]" 0 "[]" "[]" "(0, 0, 0)", THEN conjunct1] i1
  have f1: "share_fields (participants (self st1) ! 1) = (None, None, None)"
    unfolding ps cond by (simp add: addr sss shares_world_c none)
  \<comment> \<open>the transport without any delivery of shares\<close>
  have ok0: "(\<forall>p \<in> set (participants (self ?st)). \<forall>share1 share2 sig e.
        signed_secret_shares ?w0 (p_eth_address p) = Some ((share1, share2), sig) \<longrightarrow>
        recover_share_signer example_library ?w0 (decryption_condition (self ?st))
          share1 share2 sig = Inl e \<longrightarrow> e = ValueError) \<and>
    (\<forall>p \<in> set (participants (self ?st)). \<forall>ptstrs.
        verification_points_reply ?w0 (p_eth_address p) = Some ptstrs \<longrightarrow>
        (\<exists>pts. map_raise parse_point ptstrs = Inr pts))"
    using sss0 by simp
  from signed_shares_stored_or_discarded[of example_library ?w0 ?st ?st 0
      "[]" 0 "[]" 0 "[]" "[]" "(0, 0, 0)", THEN conjunct2, THEN conjunct2] ok0
  obtain st2 where r2: "handle_key_distribution_phase example_library ?w0 ?st = Returned st2"
    by blast
  then have j0: "handle_key_distribution_phase example_library ?w0 ?st = Returned st2 \<and>
      0 < length (participants (self ?st))"
    using ps by simp
  from signed_shares_stored_or_discarded[of example_library ?w0 ?st st2 0
      "[]" 0 "[]" 0 "[]" "[]" "(0, 0, 0)", THEN conjunct1] j0
  have g0: "share_fields (participants (self st2) ! 0) = (None, None, None)"
    unfolding ps cond by (simp add: sss0 none)
  \<comment> \<open>the signed message\<close>
  have m: "address_to_bytes example_library (own_address shares_world) =
        Inr (int_to_bytes 20 0xa11ce) \<and>
      private_value_to_bytes example_library 11 = Inr (int_to_bytes 32 11) \<and>
      private_value_to_bytes example_library 12 = Inr (int_to_bytes 32 12)"
    by (simp add: example_library_def shares_world_def example_address_to_bytes_def
        example_private_value_to_bytes_def secp256k1_N_def)
  from signed_shares_stored_or_discarded[of example_library shares_world ?st st1 0
      "int_to_bytes 20 0xa11ce" 11 "int_to_bytes 32 11" 12 "int_to_bytes 32 12"
      "''cond''" "(0xb0b, 100, 27)", THEN conjunct2, THEN conjunct1] m
  have msg: "recover_share_signer example_library shares_world ''cond'' 11 12 (0xb0b, 100, 27) =
     address_from_message_and_signature example_library
       (''cond'' @ int_to_bytes 20 0xa11ce @ ''SECRETSHARES'' @ int_to_bytes 32 11 @
        int_to_bytes 32 12) (0xb0b, 100, 27)"
    by blast
  from r1 f0 f1 have e1: "\<exists>st'. handle_key_distribution_phase example_library shares_world
        ?st = Returned st' \<and>
      phase (self st') = key_verification \<and>
      length (participants (self st')) = 2 \<and>
      share_fields (participants (self st') ! 0) =
        (Some 11, Some 12, Some (0xb0b, 100, 27)) \<and>
      share_fields (participants (self st') ! 1) = (None, None, None)"
    by blast
  from r2 g0 have e2: "\<exists>st'. handle_key_distribution_phase example_library ?w0 ?st =
        Returned st' \<and>
      share_fields (participants (self st') ! 0) = (None, None, None)"
    by blast
  from e1 e2 msg show ?thesis by (intro conjI)
qed

lemma hex_point_1: "parse_point (hex_point CHR ''1'') = Inr (1, 0)"
  unfolding hex_point_def by code_simp

lemma map_raise_length: "map_raise f xs = Inr ys \<Longrightarrow> length ys = length xs"
  by (induction xs arbitrary: ys) (auto split: sum.splits)

text \<open>
  C3 (as amended). When the KeyDistribution handler returns, a participant whose
  verification-points response is missing keeps its \<^verbatim>\<open>verification_points\<close>, and one
  whose response is present holds the parsed response: one pair of integers for each
  string, read from its first 64 and its next 64 characters, whatever the number of the
  strings and whether or not the pairs are points of the curve.
\<close>

theorem verification_points_stored_as_parsed:
  "(handle_key_distribution_phase L w st = Returned st' \<and>
      i < length (participants (self st)) \<longrightarrow>
      (case verification_points_reply w (p_eth_address (participants (self st) ! i)) of
         None \<Rightarrow>
           p_verification_points (participants (self st') ! i) =
             p_verification_points (participants (self st) ! i)
       | Some ptstrs \<Rightarrow>
           (\<exists>pts. map_raise parse_point ptstrs = Inr pts \<and> length pts = length ptstrs \<and>
              p_verification_points (participants (self st') ! i) = Some pts))) \<and>
   (parse_point s = Inr (x, y) \<longleftrightarrow>
      py_int16 (take 64 s) = Inr x \<and> py_int16 (take 64 (drop 64 s)) = Inr y)"
proof (intro conjI impI)
  assume "handle_key_distribution_phase L w st = Returned st' \<and>
      i < length (participants (self st))"
  then have r: "handle_key_distribution_phase L w st = Returned st'"
    and i: "i < length (participants (self st))"
    by simp_all
  from key_distribution_participant(1)[OF r i] obtain p1 where
    a: "store_signed_shares L w (decryption_condition (self st))
          (participants (self st) ! i) = Inr p1"
    and b: "store_verification_points w p1 = Inr (participants (self st') ! i)"
    by blast
  note a1 = store_signed_shares_Inr(1,2)[OF a]
  show "case verification_points_reply w (p_eth_address (participants (self st) ! i)) of
         None \<Rightarrow>
           p_verification_points (participants (self st') ! i) =
             p_verification_points (participants (self st) ! i)
       | Some ptstrs \<Rightarrow>
           (\<exists>pts. map_raise parse_point ptstrs = Inr pts \<and> length pts = length ptstrs \<and>
              p_verification_points (participants (self st') ! i) = Some pts)"
  proof (cases "verification_points_reply w (p_eth_address (participants (self st) ! i))")
    case None
    with b a1 show ?thesis
      by (simp add: store_verification_points_def)
  next
    case (Some ptstrs)
    with a1 have reply: "verification_points_reply w (p_eth_address p1) = Some ptstrs"
      by simp
    show ?thesis
    proof (cases "map_raise parse_point ptstrs")
      case (Inl e)
      with b reply show ?thesis
        by (simp add: store_verification_points_def)
    next
      case (Inr pts)
      with b reply have "participants (self st') ! i = p1\<lparr>p_verification_points := Some pts\<rparr>"
        by (simp add: store_verification_points_def)
      then have "p_verification_points (participants (self st') ! i) = Some pts"
        by simp
      with Some Inr map_raise_length[OF Inr] show ?thesis by simp
    qed
  qed
next
  show "parse_point s = Inr (x, y) \<longleftrightarrow>
      py_int16 (take 64 s) = Inr x \<and> py_int16 (take 64 (drop 64 s)) = Inr y"
    by (auto simp: parse_point_def slice64_def split: sum.splits)
qed

text \<open>
  C3 as stated fails: \<open>0xb0b\<close> publishes the single string of the pair \<open>(1, 0)\<close>,
  which is not on the curve, in a session of threshold 2. The handler returns and the
  participant holds \<open>[(1, 0)]\<close>: nothing is dropped, and nothing checks the length.
\<close>

theorem verification_points_validated_counterexample:
  "\<not> on_curve (1, 0) \<and>
   threshold (self (two_peer_state key_distribution)) = Some 2 \<and>
   map p_verification_points (participants (self (two_peer_state key_distribution))) =
     [None, None] \<and>
   handle_key_distribution_phase example_library off_curve_world
       (two_peer_state key_distribution) =
     Returned ((two_peer_state key_distribution)\<lparr>self :=
        (self (two_peer_state key_distribution))\<lparr>
           participants := [(example_peer 1 0xb0b)\<lparr>p_verification_points := Some [(1, 0)]\<rparr>,
                            example_peer 2 0xca7],
           phase := key_verification\<rparr>\<rparr>)"
proof -
  have "\<not> on_curve (1, 0)"
    by (simp add: on_curve_def secp256k1_P_def)
  moreover have "handle_key_distribution_phase example_library off_curve_world
       (two_peer_state key_distribution) =
     Returned ((two_peer_state key_distribution)\<lparr>self :=
        (self (two_peer_state key_distribution))\<lparr>
           participants := [(example_peer 1 0xb0b)\<lparr>p_verification_points := Some [(1, 0)]\<rparr>,
                            example_peer 2 0xca7],
           phase := key_verification\<rparr>\<rparr>)"
    by (simp add: handle_key_distribution_phase_def two_peer_state_def off_curve_world_def
        store_signed_shares_def store_verification_points_def example_peer_def
        hex_point_1)
  ultimately show ?thesis
    by (simp add: two_peer_state_def example_peer_def)
qed

theorem verification_points_stored_as_parsed_witness:
  "(\<exists>st'. handle_key_distribution_phase example_library off_curve_world
        (two_peer_state key_distribution) = Returned st' \<and>
      p_verification_points (participants (self st') ! 0) = Some [(1, 0)] \<and>
      p_verification_points (participants (self st') ! 1) = None) \<and>
   parse_point (hex_point CHR ''1'') = Inr (1, 0) \<and>
   py_int16 (take 64 (hex_point CHR ''1'')) = Inr 1"
proof -
  let ?st = "two_peer_state key_distribution"
  let ?s = "hex_point CHR ''1''"
  have ps: "participants (self ?st) = [example_peer 1 0xb0b, example_peer 2 0xca7]"
    by (simp add: two_peer_state_def)
  have addr: "p_eth_address (example_peer k x) = x" for k x
    by (simp add: example_peer_def)
  have vp0: "p_verification_points (example_peer k x) = None" for k x
    by (simp add: example_peer_def)
  have rep: "verification_points_reply off_curve_world 0xb0b = Some [?s]"
      "verification_points_reply off_curve_world 0xca7 = None"
      "signed_secret_shares off_curve_world = Map.empty"
    by (simp_all add: off_curve_world_def)
  have "\<forall>p \<in> set (participants (self ?st)).
      \<exists>p'. store_signed_shares example_library off_curve_world
        (decryption_condition (self ?st)) p = Inr p'"
    by (simp add: store_signed_shares_def rep)
  moreover have "\<forall>p \<in> set (participants (self ?st)). \<forall>ptstrs.
      verification_points_reply off_curve_world (p_eth_address p) = Some ptstrs \<longrightarrow>
      (\<exists>pts. map_raise parse_point ptstrs = Inr pts)"
    unfolding ps by (simp add: addr rep hex_point_1)
  ultimately obtain st1 where r: "handle_key_distribution_phase example_library
      off_curve_world ?st = Returned st1"
    using handle_key_distribution_returns by blast
  have i0: "handle_key_distribution_phase example_library off_curve_world ?st = Returned st1 \<and>
      0 < length (participants (self ?st))"
    and i1: "handle_key_distribution_phase example_library off_curve_world ?st = Returned st1 \<and>
      1 < length (participants (self ?st))"
    using r ps by simp_all
  from verification_points_stored_as_parsed[of example_library off_curve_world ?st st1 0
      ?s 1 0, THEN conjunct1] i0
  have f0: "p_verification_points (participants (self st1) ! 0) = Some [(1, 0)]"
    unfolding ps by (auto simp: addr rep hex_point_1)
  from verification_points_stored_as_parsed[of example_library off_curve_world ?st st1 1
      ?s 1 0, THEN conjunct1] i1
  have f1: "p_verification_points (participants (self st1) ! 1) = None"
    unfolding ps by (simp add: addr rep vp0)
  from verification_points_stored_as_parsed[of example_library off_curve_world ?st st1 0
      ?s 1 0, THEN conjunct2] hex_point_1
  have g: "py_int16 (take 64 ?s) = Inr 1"
    by blast
  from r f0 f1 have "\<exists>st'. handle_key_distribution_phase example_library off_curve_world
        ?st = Returned st' \<and>
      p_verification_points (participants (self st') ! 0) = Some [(1, 0)] \<and>
      p_verification_points (participants (self st') ! 1) = None"
    by blast
  with hex_point_1 g show ?thesis by (intro conjI)
qed

subsection \<open>The joint key\<close>

lemma for_participants_map:
  assumes "for_participants body ps = (None, ps')"
    and "\<And>p p'. body p = Inr p' \<Longrightarrow> f p' = f p"
  shows "map f ps' = map f ps"
proof (rule nth_equalityI)
  from for_participants_None[OF assms(1)] show "length (map f ps') = length (map f ps)"
    by simp
next
  fix i assume "i < length (map f ps')"
  with for_participants_None[OF assms(1)] have "i < length ps" "body (ps ! i) = Inr (ps' ! i)"
    by simp_all
  with assms(2)[of "ps ! i" "ps' ! i"] for_participants_None[OF assms(1)]
  show "map f ps' ! i = map f ps ! i"
    by simp
qed

lemma store_decryption_key_part_keeps:
  "store_decryption_key_part w p = Inr p' \<Longrightarrow>
     p_encryption_key_part p' = p_encryption_key_part p"
  by (auto simp: store_decryption_key_part_def split: option.splits sum.splits)

lemma handle_key_generation_Returned:
  assumes "handle_key_generation_phase L w st = Returned st'"
  shows "reduce_add_from L (encryption_key_part (self st))
           (map p_encryption_key_part (participants (self st'))) =
         Inr (encryption_key (self st'))"
    and "secret_poly1 (self st') = secret_poly1 (self st)"
  using assms
  by (auto simp: handle_key_generation_phase_def split: prod.splits option.splits sum.splits)

lemma handle_key_publication_Returned:
  assumes "handle_key_publication_phase L w st = Returned st'"
  shows "for_participants (store_decryption_key_part w) (participants (self st)) =
           (None, participants (self st'))"
    and "\<exists>parts a0. sum_from 0 (map p_decryption_key_part (participants (self st'))) = Inr parts \<and>
           first_coefficient (secret_poly1 (self st)) = Inr a0 \<and>
           decryption_key (self st') = Some ((parts + a0) mod secp256k1_N)"
    and "encryption_key (self st') = encryption_key (self st)"
  using assms
  by (auto simp: handle_key_publication_phase_def split: prod.splits option.splits sum.splits)

lemma reduce_add_from_Some:
  "reduce_add_from L (Some x) (map (\<lambda>s. Some (f s)) ss) =
     Inr (Some (foldl (secp256k1_add L) x (map f ss)))"
  by (induction ss arbitrary: x) simp_all

lemma sum_from_Some: "sum_from acc (map Some ss) = Inr (acc + sum_list ss)"
  by (induction ss arbitrary: acc) (simp_all add: add.assoc)

lemma foldl_add_multiples:
  assumes hom: "\<forall>a b. secp256k1_multiply L (secp256k1_G L) ((a + b) mod secp256k1_N) =
      secp256k1_add L (secp256k1_multiply L (secp256k1_G L) a)
                      (secp256k1_multiply L (secp256k1_G L) b)"
    and red: "\<forall>a. secp256k1_multiply L (secp256k1_G L) (a mod secp256k1_N) =
      secp256k1_multiply L (secp256k1_G L) a"
  shows "foldl (secp256k1_add L) (secp256k1_multiply L (secp256k1_G L) x)
           (map (secp256k1_multiply L (secp256k1_G L)) ss) =
         secp256k1_multiply L (secp256k1_G L) ((sum_list ss + x) mod secp256k1_N)"
proof (induction ss arbitrary: x)
  case Nil
  then show ?case using red by simp
next
  case (Cons s ss)
  have "foldl (secp256k1_add L) (secp256k1_multiply L (secp256k1_G L) x)
           (map (secp256k1_multiply L (secp256k1_G L)) (s # ss)) =
        foldl (secp256k1_add L)
           (secp256k1_multiply L (secp256k1_G L) ((x + s) mod secp256k1_N))
           (map (secp256k1_multiply L (secp256k1_G L)) ss)"
    using hom by simp
  also have "\<dots> = secp256k1_multiply L (secp256k1_G L)
      ((sum_list ss + (x + s) mod secp256k1_N) mod secp256k1_N)"
    by (rule Cons.IH)
  also have "(sum_list ss + (x + s) mod secp256k1_N) mod secp256k1_N =
      (sum_list (s # ss) + x) mod secp256k1_N"
    by (simp add: mod_simps algebra_simps)
  finally show ?case .
qed

lemma hex_point_3: "parse_point (hex_point CHR ''3'') = Inr (3, 0)"
  unfolding hex_point_def by code_simp

lemma py_int16_03: "py_int16 ''03'' = Inr 3"
  by code_simp

text \<open>
  C1. Let \<^verbatim>\<open>multiply(G, \<sqdot>)\<close> turn addition modulo \<open>N\<close> into \<^verbatim>\<open>add\<close> and depend on its
  scalar modulo \<open>N\<close> only, as in a group where \<open>G\<close> has order \<open>N\<close>. Let the session hold
  \<open>secret_poly1[0]\<sqdot>G\<close> as its own encryption key part, as the Uninitialized handler
  leaves it, and let the KeyGeneration and then the KeyPublication handler return. If the
  participants then hold the encryption key parts \<open>s\<^sub>i\<sqdot>G\<close> and the decryption key parts
  \<open>s\<^sub>i\<close>, then the encryption key is the own part plus all the participants' parts, the
  decryption key is the own secret plus all \<open>s\<^sub>i\<close> modulo \<open>N\<close>, and the decryption key
  times \<open>G\<close> is the encryption key.
\<close>

theorem joint_key_correct:
  assumes hom: "\<forall>a b. secp256k1_multiply L (secp256k1_G L) ((a + b) mod secp256k1_N) =
      secp256k1_add L (secp256k1_multiply L (secp256k1_G L) a)
                      (secp256k1_multiply L (secp256k1_G L) b)"
    and red: "\<forall>a. secp256k1_multiply L (secp256k1_G L) (a mod secp256k1_N) =
      secp256k1_multiply L (secp256k1_G L) a"
    and poly: "secret_poly1 (self st) = Some (a0 # rest)"
    and own: "encryption_key_part (self st) = Some (secp256k1_multiply L (secp256k1_G L) a0)"
    and gen: "handle_key_generation_phase L w st = Returned st1"
    and pub: "handle_key_publication_phase L w' st1 = Returned st2"
    and ekps: "map p_encryption_key_part (participants (self st2)) =
      map (\<lambda>s. Some (secp256k1_multiply L (secp256k1_G L) s)) ss"
    and dkps: "map p_decryption_key_part (participants (self st2)) = map Some ss"
  shows "encryption_key (self st2) =
           Some (foldl (secp256k1_add L) (secp256k1_multiply L (secp256k1_G L) a0)
                   (map (secp256k1_multiply L (secp256k1_G L)) ss)) \<and>
         decryption_key (self st2) = Some ((sum_list ss + a0) mod secp256k1_N) \<and>
         (\<exists>d. decryption_key (self st2) = Some d \<and>
              encryption_key (self st2) = Some (secp256k1_multiply L (secp256k1_G L) d))"
proof -
  let ?mul = "secp256k1_multiply L (secp256k1_G L)"
  note p = handle_key_publication_Returned[OF pub]
  note g = handle_key_generation_Returned[OF gen]
  have "map p_encryption_key_part (participants (self st2)) =
      map p_encryption_key_part (participants (self st1))"
    using p(1) store_decryption_key_part_keeps by (rule for_participants_map)
  with ekps have "map p_encryption_key_part (participants (self st1)) =
      map (\<lambda>s. Some (?mul s)) ss"
    by simp
  with g(1) own have "encryption_key (self st1) = Some (foldl (secp256k1_add L) (?mul a0)
      (map ?mul ss))"
    by (simp add: reduce_add_from_Some)
  with p(3) have ek: "encryption_key (self st2) = Some (foldl (secp256k1_add L) (?mul a0)
      (map ?mul ss))"
    by simp
  from p(2) obtain parts c where
    s: "sum_from 0 (map p_decryption_key_part (participants (self st2))) = Inr parts"
    and c: "first_coefficient (secret_poly1 (self st1)) = Inr c"
    and dk: "decryption_key (self st2) = Some ((parts + c) mod secp256k1_N)"
    by blast
  from s dkps have "parts = sum_list ss"
    by (simp add: sum_from_Some)
  moreover from c g(2) poly have "c = a0"
    by (simp add: first_coefficient_def)
  ultimately have dk': "decryption_key (self st2) = Some ((sum_list ss + a0) mod secp256k1_N)"
    using dk by simp
  from foldl_add_multiples[OF hom red, of a0 ss] ek
  have "encryption_key (self st2) = Some (?mul ((sum_list ss + a0) mod secp256k1_N))"
    by simp
  with ek dk' show ?thesis by simp
qed

lemma example_library_hom:
  "\<forall>a b. secp256k1_multiply example_library (secp256k1_G example_library)
       ((a + b) mod secp256k1_N) =
     secp256k1_add example_library
       (secp256k1_multiply example_library (secp256k1_G example_library) a)
       (secp256k1_multiply example_library (secp256k1_G example_library) b)"
  by (simp add: example_library_def mod_simps)

lemma example_library_red:
  "\<forall>a. secp256k1_multiply example_library (secp256k1_G example_library)
       (a mod secp256k1_N) =
     secp256k1_multiply example_library (secp256k1_G example_library) a"
  by (simp add: example_library_def)

lemmas honest_run_defs =
  handle_key_generation_phase_def handle_key_publication_phase_def two_peer_state_def
  honest_world_def store_encryption_key_part_def store_decryption_key_part_def
  example_peer_def hex_point_5 hex_point_3 py_int16_05 py_int16_03 first_coefficient_def

theorem joint_key_correct_witness:
  "(\<exists>st1 st2.
      handle_key_generation_phase example_library honest_world
        (two_peer_state key_generation) = Returned st1 \<and>
      handle_key_publication_phase example_library honest_world st1 = Returned st2 \<and>
      map p_encryption_key_part (participants (self st2)) =
        map (\<lambda>s. Some (secp256k1_multiply example_library (secp256k1_G example_library) s))
          [5, 3] \<and>
      map p_decryption_key_part (participants (self st2)) = map Some [5, 3] \<and>
      decryption_key (self st2) = Some 15 \<and>
      encryption_key (self st2) =
        Some (secp256k1_multiply example_library (secp256k1_G example_library) 15)) \<and>
   secret_poly1 (self (two_peer_state key_generation)) = Some (7 # [1]) \<and>
   encryption_key_part (self (two_peer_state key_generation)) =
     Some (secp256k1_multiply example_library (secp256k1_G example_library) 7)"
proof -
  let ?st = "two_peer_state key_generation"
  let ?mul = "secp256k1_multiply example_library (secp256k1_G example_library)"
  define st1 where "st1 = state_of (handle_key_generation_phase example_library honest_world ?st)"
  define st2 where "st2 = state_of (handle_key_publication_phase example_library honest_world st1)"
  have "has_raised (handle_key_generation_phase example_library honest_world ?st) = None"
    by (simp add: honest_run_defs)
  then have gen: "handle_key_generation_phase example_library honest_world ?st = Returned st1"
    unfolding st1_def
    by (cases "handle_key_generation_phase example_library honest_world ?st") simp_all
  have "has_raised (handle_key_publication_phase example_library honest_world st1) = None"
    unfolding st1_def by (simp add: honest_run_defs)
  then have pub: "handle_key_publication_phase example_library honest_world st1 = Returned st2"
    unfolding st2_def
    by (cases "handle_key_publication_phase example_library honest_world st1") simp_all
  have mul: "?mul 5 = (5, 0)" "?mul 3 = (3, 0)"
    by (simp_all add: example_library_def secp256k1_N_def)
  have ekps: "map p_encryption_key_part (participants (self st2)) =
      map (\<lambda>s. Some (?mul s)) [5, 3]"
    unfolding st2_def st1_def by (simp add: honest_run_defs mul)
  have dkps: "map p_decryption_key_part (participants (self st2)) = map Some [5, 3]"
    unfolding st2_def st1_def by (simp add: honest_run_defs)
  have poly: "secret_poly1 (self ?st) = Some (7 # [1])"
    by (simp add: two_peer_state_def)
  have own: "encryption_key_part (self ?st) = Some (?mul 7)"
    by (simp add: two_peer_state_def)
  from joint_key_correct[OF example_library_hom example_library_red poly own gen pub ekps dkps]
  obtain d where d: "decryption_key (self st2) = Some ((sum_list [5, 3] + 7) mod secp256k1_N)"
    "decryption_key (self st2) = Some d" "encryption_key (self st2) = Some (?mul d)"
    by blast
  have "(sum_list [5, 3] + 7) mod secp256k1_N = (15 :: int)"
    by (simp add: secp256k1_N_def)
  with d have "decryption_key (self st2) = Some 15 \<and> encryption_key (self st2) = Some (?mul 15)"
    by simp
  with gen pub ekps dkps have "\<exists>st1 st2.
      handle_key_generation_phase example_library honest_world ?st = Returned st1 \<and>
      handle_key_publication_phase example_library honest_world st1 = Returned st2 \<and>
      map p_encryption_key_part (participants (self st2)) = map (\<lambda>s. Some (?mul s)) [5, 3] \<and>
      map p_decryption_key_part (participants (self st2)) = map Some [5, 3] \<and>
      decryption_key (self st2) = Some 15 \<and>
      encryption_key (self st2) = Some (?mul 15)"
    by blast
  with poly own show ?thesis by (intro conjI)
qed

subsection \<open>The KeyVerification handler\<close>

lemma shares_match_without_points:
  assumes "p_secret_share1 p = Some share1" "p_secret_share2 p = Some share2"
    and "p_verification_points p = None \<or> p_verification_points p = Some []"
  shows "shares_match L w p = Inl TypeError"
  using assms by (auto simp: shares_match_def reduce_add_def)

lemma key_verification_raises_at_first:
  assumes "participants (self st) = p # ps"
    and "shares_match L w p = Inl e"
  shows "handle_key_verification_phase L w st = Raised e st"
  using assms by (simp add: handle_key_verification_phase_def)

lemma shares_world_fields:
  "signed_secret_shares shares_world 0xb0b = Some ((11, 12), (0xb0b, 100, 27))"
  "signed_secret_shares shares_world 0xca7 = Some ((13, 14), (0xca7, 100, 29))"
  "verification_points_reply shares_world a = None"
  by (simp_all add: shares_world_def)

lemma distribution_in_shares_world:
  "handle_key_distribution_phase example_library shares_world
       (two_peer_state key_distribution) =
     Returned ((two_peer_state key_distribution)\<lparr>self :=
        (self (two_peer_state key_distribution))\<lparr>
           participants := [(example_peer 1 0xb0b)\<lparr>p_secret_share1 := Some 11,
                               p_secret_share2 := Some 12,
                               p_shares_signature := Some (0xb0b, 100, 27)\<rparr>,
                            example_peer 2 0xca7],
           phase := key_verification\<rparr>\<rparr>)"
proof -
  have a: "store_signed_shares example_library shares_world ''cond'' (example_peer k 0xb0b) =
      Inr ((example_peer k 0xb0b)\<lparr>p_secret_share1 := Some 11, p_secret_share2 := Some 12,
             p_shares_signature := Some (0xb0b, 100, 27)\<rparr>)" for k
    by (simp add: store_signed_shares_def example_peer_def shares_world_fields shares_world_b)
  have b: "store_signed_shares example_library shares_world ''cond'' (example_peer k 0xca7) =
      Inr (example_peer k 0xca7)" for k
    by (simp add: store_signed_shares_def example_peer_def shares_world_fields shares_world_c)
  have c: "store_verification_points shares_world p = Inr p" for p
    by (simp add: store_verification_points_def shares_world_fields)
  have ps: "participants (self (two_peer_state key_distribution)) =
      [example_peer 1 0xb0b, example_peer 2 0xca7]"
    and cond: "decryption_condition (self (two_peer_state key_distribution)) = ''cond''"
    by (simp_all add: two_peer_state_def)
  show ?thesis
    unfolding handle_key_distribution_phase_def ps cond
    by (simp add: a b c)
qed

text \<open>
  C2 fails on the code. The peer \<open>0xb0b\<close> delivers correctly signed shares, and no peer
  delivers verification points, which the KeyDistribution handler accepts with a
  warning. The KeyVerification handler then iterates over the \<^verbatim>\<open>None\<close> in
  \<^verbatim>\<open>verification_points\<close> of \<open>0xb0b\<close> and raises \<^verbatim>\<open>TypeError\<close>: no complaint is
  recorded and the phase stays KeyVerification.
\<close>

theorem key_verification_raises_when_points_missing:
  "has_raised (handle_key_distribution_phase example_library shares_world
       (two_peer_state key_distribution)) = None \<and>
   map (\<lambda>p. (share_fields p, p_verification_points p))
     (participants (self (state_of (handle_key_distribution_phase example_library shares_world
        (two_peer_state key_distribution))))) =
     [((Some 11, Some 12, Some (0xb0b, 100, 27)), None), ((None, None, None), None)] \<and>
   handle_key_verification_phase example_library shares_world
       (state_of (handle_key_distribution_phase example_library shares_world
          (two_peer_state key_distribution))) =
     Raised TypeError
       (state_of (handle_key_distribution_phase example_library shares_world
          (two_peer_state key_distribution))) \<and>
   complaint_table (state_of (handle_key_distribution_phase example_library shares_world
          (two_peer_state key_distribution))) = [] \<and>
   phase (self (state_of (handle_key_distribution_phase example_library shares_world
          (two_peer_state key_distribution)))) = key_verification"
proof -
  let ?p = "(example_peer 1 0xb0b)\<lparr>p_secret_share1 := Some 11, p_secret_share2 := Some 12,
             p_shares_signature := Some (0xb0b, 100, 27)\<rparr>"
  let ?st = "(two_peer_state key_distribution)\<lparr>self :=
        (self (two_peer_state key_distribution))\<lparr>
           participants := [?p, example_peer 2 0xca7], phase := key_verification\<rparr>\<rparr>"
  have "shares_match example_library shares_world ?p = Inl TypeError"
    by (rule shares_match_without_points[of _ 11 12]) (simp_all add: example_peer_def)
  moreover have "participants (self ?st) = ?p # [example_peer 2 0xca7]"
    by simp
  ultimately have "handle_key_verification_phase example_library shares_world ?st =
      Raised TypeError ?st"
    by (rule key_verification_raises_at_first[rotated])
  moreover have "map (\<lambda>p. (share_fields p, p_verification_points p)) (participants (self ?st)) =
     [((Some 11, Some 12, Some (0xb0b, 100, 27)), None), ((None, None, None), None)]"
    by (simp add: share_fields_def example_peer_def)
  moreover have "complaint_table ?st = []" "phase (self ?st) = key_verification"
    by (simp_all add: two_peer_state_def)
  ultimately show ?thesis
    unfolding distribution_in_shares_world state_of.simps has_raised.simps
    by (intro conjI) simp_all
qed

subsection \<open>The own key part after initialisation\<close>

lemma uninitialized_own_key_part:
  assumes "handle_uninitialized_phase L w st = Returned st'"
  shows "\<exists>a0 rest. secret_poly1 (self st') = Some (a0 # rest) \<and>
     encryption_key_part (self st') = Some (secp256k1_multiply L (secp256k1_G L) a0)"
proof -
  note f = handle_uninitialized_fields[OF assms]
  let ?p1 = "random_polynomial w 0 (ceil_threshold (length (participants (self st'))))"
  from f(7) have "?p1 \<noteq> []"
    using length_random_polynomial[of w 0 "ceil_threshold (length (participants (self st')))"]
    by auto
  then obtain a0 rest where "?p1 = a0 # rest"
    by (cases ?p1) auto
  with f(2,5) show ?thesis by simp
qed

subsection \<open>Complaints recorded by the KeyVerification handler\<close>

lemma get_or_create_complaint_once:
  assumes "length (complaints_against table p address) \<le> 1"
  shows "\<exists>table'. get_or_create_complaint_by_complainer_address table p address = Inr table' \<and>
     length (complaints_against table' p address) = 1 \<and>
     get_or_create_complaint_by_complainer_address table' p address = Inr table'"
proof (cases "complaints_against table p address")
  case Nil
  then show ?thesis
    by (simp add: get_or_create_complaint_by_complainer_address_def complaints_against_def
        scalar_def)
next
  case (Cons c cs)
  with assms have "cs = []" by simp
  with Cons show ?thesis
    by (simp add: get_or_create_complaint_by_complainer_address_def complaints_against_def
        scalar_def)
qed

lemma get_or_create_complaint_others:
  assumes "get_or_create_complaint_by_complainer_address table p address = Inr table'"
    and "p_id q \<noteq> p_id p \<or> a \<noteq> address"
  shows "complaints_against table' q a = complaints_against table q a"
  using assms
  by (auto simp: get_or_create_complaint_by_complainer_address_def complaints_against_def
      split: sum.splits option.splits)

lemma key_verification_single:
  assumes ps: "participants (self st) = [p]"
    and once: "length (complaints_against (complaint_table st) p (own_address w)) \<le> 1"
    and m: "shares_match L w p = Inr matches"
  shows "\<exists>st'. handle_key_verification_phase L w st = Returned st' \<and>
     phase (self st') = key_check \<and>
     (if matches then complaint_table st' = complaint_table st
      else length (complaints_against (complaint_table st') p (own_address w)) = 1)"
proof (cases matches)
  case True
  with ps m show ?thesis
    by (simp add: handle_key_verification_phase_def)
next
  case False
  from get_or_create_complaint_once[OF once] obtain table' where
    "get_or_create_complaint_by_complainer_address (complaint_table st) p (own_address w) =
       Inr table'"
    "length (complaints_against table' p (own_address w)) = 1"
    by blast
  with False ps m show ?thesis
    by (simp add: handle_key_verification_phase_def)
qed

lemma key_verification_loop_complaints:
  assumes "\<forall>p \<in> set ps. \<exists>m. shares_match L w p = Inr m"
    and "distinct (map p_id ps)"
    and "\<forall>p \<in> set ps. length (complaints_against table p (own_address w)) \<le> 1"
  shows "\<exists>table'. key_verification_loop L w ps table = (None, table') \<and>
     (\<forall>p \<in> set ps.
        if shares_match L w p = Inr True
        then complaints_against table' p (own_address w) =
               complaints_against table p (own_address w)
        else length (complaints_against table' p (own_address w)) = 1) \<and>
     (\<forall>q a. p_id q \<notin> p_id ` set ps \<or> a \<noteq> own_address w \<longrightarrow>
        complaints_against table' q a = complaints_against table q a)"
  using assms
proof (induction ps arbitrary: table)
  case Nil
  then show ?case by simp
next
  case (Cons p ps)
  let ?own = "own_address w"
  from Cons.prems(1) obtain m where m: "shares_match L w p = Inr m" by auto
  from Cons.prems(2) have fresh: "p_id p \<notin> p_id ` set ps" and d: "distinct (map p_id ps)"
    by auto
  from Cons.prems(1) have all: "\<forall>p \<in> set ps. \<exists>m. shares_match L w p = Inr m" by simp
  show ?case
  proof (cases m)
    case True
    from Cons.prems(3) have "\<forall>p \<in> set ps. length (complaints_against table p ?own) \<le> 1"
      by simp
    from Cons.IH[OF all d this] obtain table' where
      t: "key_verification_loop L w ps table = (None, table')"
      and each: "\<forall>p \<in> set ps.
        if shares_match L w p = Inr True
        then complaints_against table' p ?own = complaints_against table p ?own
        else length (complaints_against table' p ?own) = 1"
      and others: "\<forall>q a. p_id q \<notin> p_id ` set ps \<or> a \<noteq> ?own \<longrightarrow>
        complaints_against table' q a = complaints_against table q a"
      by blast
    from others fresh have "complaints_against table' p ?own = complaints_against table p ?own"
      by blast
    with m True t each others show ?thesis by auto
  next
    case False
    from Cons.prems(3) have "length (complaints_against table p ?own) \<le> 1" by simp
    from get_or_create_complaint_once[OF this] obtain table1 where
      g: "get_or_create_complaint_by_complainer_address table p ?own = Inr table1"
      and one: "length (complaints_against table1 p ?own) = 1"
      by blast
    have same: "complaints_against table1 q a = complaints_against table q a"
      if "p_id q \<noteq> p_id p \<or> a \<noteq> ?own" for q a
      using get_or_create_complaint_others[OF g that] .
    have "\<forall>q \<in> set ps. length (complaints_against table1 q ?own) \<le> 1"
    proof
      fix q assume q: "q \<in> set ps"
      with fresh have "p_id q \<noteq> p_id p" by (metis image_eqI)
      with same[of q ?own] Cons.prems(3) q show "length (complaints_against table1 q ?own) \<le> 1"
        by simp
    qed
    from Cons.IH[OF all d this] obtain table' where
      t: "key_verification_loop L w ps table1 = (None, table')"
      and each: "\<forall>p \<in> set ps.
        if shares_match L w p = Inr True
        then complaints_against table' p ?own = complaints_against table1 p ?own
        else length (complaints_against table' p ?own) = 1"
      and others: "\<forall>q a. p_id q \<notin> p_id ` set ps \<or> a \<noteq> ?own \<longrightarrow>
        complaints_against table' q a = complaints_against table1 q a"
      by blast
    have run: "key_verification_loop L w (p # ps) table = (None, table')"
      using m False g t by simp
    have p_one: "length (complaints_against table' p ?own) = 1"
      using others fresh one by simp
    have each': "if shares_match L w q = Inr True
        then complaints_against table' q ?own = complaints_against table q ?own
        else length (complaints_against table' q ?own) = 1" if "q \<in> set (p # ps)" for q
    proof (cases "q = p")
      case True
      with m False p_one show ?thesis by simp
    next
      case False
      with that have q: "q \<in> set ps" by simp
      with fresh have "p_id q \<noteq> p_id p" by (metis image_eqI)
      with same[of q ?own] each q show ?thesis by auto
    qed
    have others': "complaints_against table' q a = complaints_against table q a"
      if "p_id q \<notin> p_id ` set (p # ps) \<or> a \<noteq> ?own" for q a
    proof -
      from that have "p_id q \<notin> p_id ` set ps \<or> a \<noteq> ?own" by auto
      with others have "complaints_against table' q a = complaints_against table1 q a" by blast
      moreover from that have "p_id q \<noteq> p_id p \<or> a \<noteq> ?own" by auto
      ultimately show ?thesis using same by simp
    qed
    from run each' others' show ?thesis by blast
  qed
qed

lemma key_verification_complaints:
  assumes "\<forall>p \<in> set (participants (self st)). \<exists>m. shares_match L w p = Inr m"
    and "distinct (map p_id (participants (self st)))"
    and "\<forall>p \<in> set (participants (self st)).
      length (complaints_against (complaint_table st) p (own_address w)) \<le> 1"
  shows "\<exists>st'. handle_key_verification_phase L w st = Returned st' \<and>
     phase (self st') = key_check \<and>
     (\<forall>p \<in> set (participants (self st)).
        if shares_match L w p = Inr True
        then complaints_against (complaint_table st') p (own_address w) =
               complaints_against (complaint_table st) p (own_address w)
        else length (complaints_against (complaint_table st') p (own_address w)) = 1)"
proof -
  from key_verification_loop_complaints[OF assms] obtain table' where
    "key_verification_loop L w (participants (self st)) (complaint_table st) = (None, table')"
    "\<forall>p \<in> set (participants (self st)).
        if shares_match L w p = Inr True
        then complaints_against table' p (own_address w) =
               complaints_against (complaint_table st) p (own_address w)
        else length (complaints_against table' p (own_address w)) = 1"
    by blast
  then show ?thesis
    by (simp add: handle_key_verification_phase_def)
qed

lemma shares_match_formula:
  assumes "p_secret_share1 p = Some share1" "p_secret_share2 p = Some share2"
    and "p_verification_points p = Some (v # vs)"
  shows "shares_match L w p =
     Inr (secp256k1_add L (secp256k1_multiply L (secp256k1_G L) share1)
                         (secp256k1_multiply L G2 share2) =
          foldl (secp256k1_add L) (secp256k1_multiply L v (own_address w ^ 0 mod secp256k1_N))
            (map (\<lambda>(k, ps). secp256k1_multiply L ps (own_address w ^ k mod secp256k1_N))
               (enumerate 1 vs)))"
  using assms by (simp add: shares_match_def reduce_add_def)

lemma shares_match_missing_shares:
  assumes "p_secret_share1 p = None \<or> p_secret_share2 p = None"
  shows "shares_match L w p = Inr False"
  using assms by (auto simp: shares_match_def split: option.splits)

end
